theory Spec2Isabelle
  imports Complex_Main "HOL-Library.Monad_Syntax"
begin

section \<open>Data model (types.ts)\<close>

text \<open>
  JavaScript numbers are modelled as reals (positions, radii, hit points, timers) and as
  integers where the engine only ever adds and subtracts whole amounts (gold, population).
  Optional fields (\<^verbatim>\<open>field?: T\<close>) are \<open>option\<close>s; \<open>None\<close> stands for \<^verbatim>\<open>undefined\<close>
  and \<^verbatim>\<open>null\<close>. An entity is passed wherever a \<^verbatim>\<open>Vector2\<close> is expected, so the entity
  record extends the vector record.
\<close>

record Vector2 =
  x :: real
  y :: real

datatype EntityType = UNIT | ZOMBIE | BASE | HOUSE | ENEMY_BASE | MINE | WALL

record Entity = Vector2 +
  entId :: string
  etype :: EntityType
  hp :: real
  maxHp :: real
  radius :: real
  ownerId :: string
  targetId :: "string option"
  attackCooldown :: "real option"
  lastAttackerId :: "string option"
  vx :: "real option"
  vy :: "real option"
  facing :: "real option"
  path :: "Vector2 list option"
  pathIndex :: "nat option"
  pathCooldown :: "real option"
  damage :: "real option"
  range_e :: "real option"
  speed :: "real option"
  unitType :: "string option"

record PlayerState =
  playerId :: string
  name :: string
  gold :: int
  currentPop :: int
  maxPop :: int
  basePosition :: Vector2
  color :: string
  defeated :: bool

record GameState =
  players :: "string \<rightharpoonup> PlayerState"
  entities :: "Entity list"
  lastTick :: real
  gameOver :: bool
  winner :: "string option"
  waveNumber :: int
  playerCount :: "nat option"

section \<open>Constants (constants.ts and the head of GameEngine.ts)\<close>

definition MAP_SIZE :: int where "MAP_SIZE = 64"
definition ZOMBIE_BOUNTY :: int where "ZOMBIE_BOUNTY = 10"
definition BUILD_RADIUS :: real where "BUILD_RADIUS = 8"
definition MINE_COST :: int where "MINE_COST = 250"
definition WALL_COST :: int where "WALL_COST = 30"

definition PATH_RECALC_INTERVAL :: real where "PATH_RECALC_INTERVAL = 4 / 10"
definition ATTACK_RANGE_BUFFER :: real where "ATTACK_RANGE_BUFFER = 5 / 100"
definition WALL_TARGET_MAX_DISTANCE :: real where "WALL_TARGET_MAX_DISTANCE = 5"
definition WALL_BLOCK_TOLERANCE :: real where "WALL_BLOCK_TOLERANCE = 75 / 100"
definition WALL_BREAK_CLOSE_DISTANCE :: real where "WALL_BREAK_CLOSE_DISTANCE = 25 / 10"

datatype UnitTypeKey = SOLDIER | TANK

record UnitStats =
  u_name :: string
  u_cost :: int
  u_hp :: real
  u_damage :: real
  u_speed :: real
  u_range :: real
  u_radius :: real
  u_popCost :: int

fun UNIT_TYPES :: "UnitTypeKey \<Rightarrow> UnitStats" where
  "UNIT_TYPES SOLDIER = \<lparr>u_name = ''Soldier'', u_cost = 20, u_hp = 50, u_damage = 10,
     u_speed = 2, u_range = 15 / 10, u_radius = 3 / 10, u_popCost = 1\<rparr>"
| "UNIT_TYPES TANK = \<lparr>u_name = ''Tank'', u_cost = 60, u_hp = 300, u_damage = 25,
     u_speed = 1, u_range = 11 / 10, u_radius = 5 / 10, u_popCost = 2\<rparr>"

fun unitTypeName :: "UnitTypeKey \<Rightarrow> string" where
  "unitTypeName SOLDIER = ''SOLDIER''"
| "unitTypeName TANK = ''TANK''"

definition BASE_POSITIONS :: "Vector2 list" where
  "BASE_POSITIONS =
    [\<lparr>x = 10, y = 54\<rparr>, \<lparr>x = 20, y = 44\<rparr>, \<lparr>x = 8, y = 44\<rparr>, \<lparr>x = 18, y = 54\<rparr>,
     \<lparr>x = 12, y = 48\<rparr>, \<lparr>x = 22, y = 50\<rparr>, \<lparr>x = 6, y = 50\<rparr>, \<lparr>x = 16, y = 42\<rparr>]"

definition enemyBasePos :: Vector2 where
  "enemyBasePos = \<lparr>x = 54, y = 10\<rparr>"

section \<open>Geometry (utils/isometric.ts, GameEngine.ts)\<close>

definition getDistance :: "'a Vector2_scheme \<Rightarrow> 'b Vector2_scheme \<Rightarrow> real" where
  "getDistance a b = sqrt ((x a - x b)\<^sup>2 + (y a - y b)\<^sup>2)"

definition getFacingFromVector :: "real \<Rightarrow> real \<Rightarrow> real" where
  "getFacingFromVector dx dy = (if dx - dy < 0 then - 1 else 1)"

fun getPathLength :: "Vector2 list \<Rightarrow> real" where
  "getPathLength (a # b # rest) = getDistance a b + getPathLength (b # rest)"
| "getPathLength _ = 0"

definition distancePointToSegment ::
  "real \<Rightarrow> real \<Rightarrow> real \<Rightarrow> real \<Rightarrow> real \<Rightarrow> real \<Rightarrow> real" where
  "distancePointToSegment px py ax ay bx by =
    (let dx = bx - ax; dy = by - ay in
     if dx = 0 \<and> dy = 0 then sqrt ((px - ax)\<^sup>2 + (py - ay)\<^sup>2)
     else
       let t = ((px - ax) * dx + (py - ay) * dy) / (dx * dx + dy * dy);
           clamped = max 0 (min 1 t);
           cx = ax + clamped * dx;
           cy = ay + clamped * dy
       in sqrt ((px - cx)\<^sup>2 + (py - cy)\<^sup>2))"

text \<open>\<^verbatim>\<open>Math.round\<close> rounds to the nearest integer, halves upwards.\<close>

definition js_round :: "real \<Rightarrow> real" where
  "js_round v = of_int \<lfloor>v + 1 / 2\<rfloor>"

definition snapToTileCoord :: "real \<Rightarrow> real" where
  "snapToTileCoord v = js_round (v - 1 / 2) + 1 / 2"

section \<open>Terrain oracle\<close>

definition isValidTerrain :: "real \<Rightarrow> real \<Rightarrow> bool" where
  "isValidTerrain px py =
    (if px < 0 \<or> px \<ge> of_int MAP_SIZE \<or> py < 0 \<or> py \<ge> of_int MAP_SIZE then False
     else
       let distFromDiagonal = \<bar>px + py - of_int MAP_SIZE\<bar>;
           roominess = sin (px * (15 / 100)) * 6 + cos (py * (15 / 100)) * 6;
           distP1 = getDistance \<lparr>x = px, y = py\<rparr> \<lparr>x = 10, y = 54\<rparr>;
           distP2 = getDistance \<lparr>x = px, y = py\<rparr> \<lparr>x = 20, y = 44\<rparr>;
           distEnemy = getDistance \<lparr>x = px, y = py\<rparr> \<lparr>x = 54, y = 10\<rparr>
       in if distP1 < 8 \<or> distP2 < 8 \<or> distEnemy < 8 then True
          else distFromDiagonal < 14 + roominess)"

section \<open>Blocking entities\<close>

definition blockingTypes :: "EntityType list" where
  "blockingTypes = [WALL, HOUSE, MINE, BASE, ENEMY_BASE]"

text \<open>
  \<^verbatim>\<open>ignoreId && e.id === ignoreId\<close>: an absent or empty id ignores nothing.
\<close>

definition isIgnoredId :: "string option \<Rightarrow> Entity \<Rightarrow> bool" where
  "isIgnoredId ignoreId e =
    (case ignoreId of None \<Rightarrow> False | Some i \<Rightarrow> i \<noteq> [] \<and> entId e = i)"

definition ignoredTypesOf :: "EntityType list option \<Rightarrow> EntityType list" where
  "ignoredTypesOf ignoreTypes = (case ignoreTypes of None \<Rightarrow> [] | Some ts \<Rightarrow> ts)"

fun isPositionBlocked ::
  "Entity list \<Rightarrow> real \<Rightarrow> real \<Rightarrow> string option \<Rightarrow> EntityType list option \<Rightarrow> bool" where
  "isPositionBlocked [] px py ignoreId ignoreTypes = False"
| "isPositionBlocked (e # es) px py ignoreId ignoreTypes =
    (if isIgnoredId ignoreId e then isPositionBlocked es px py ignoreId ignoreTypes
     else if etype e \<in> set (ignoredTypesOf ignoreTypes)
       then isPositionBlocked es px py ignoreId ignoreTypes
     else if hp e \<le> 0 then isPositionBlocked es px py ignoreId ignoreTypes
     else if etype e \<in> set blockingTypes \<and>
             getDistance \<lparr>x = px, y = py\<rparr> e
               < (if radius e = 0 then 1 / 2 else radius e) + 1 / 2
       then True
     else isPositionBlocked es px py ignoreId ignoreTypes)"

type_synonym tile = "int \<times> int"

text \<open>
  Tiles are pairs of integers. The engine keys its maps and sets by the string
  \<^verbatim>\<open>`${x},${y}`\<close>, which names each integer pair uniquely, so the pair itself is the key.
\<close>

definition inBounds :: "int \<Rightarrow> int \<Rightarrow> bool" where
  "inBounds nx ny = (nx \<ge> 0 \<and> nx < MAP_SIZE \<and> ny \<ge> 0 \<and> ny < MAP_SIZE)"

fun buildBlockedTiles ::
  "Entity list \<Rightarrow> EntityType list option \<Rightarrow> string option \<Rightarrow> tile set" where
  "buildBlockedTiles [] ignoreTypes ignoreId = {}"
| "buildBlockedTiles (e # es) ignoreTypes ignoreId =
    (if isIgnoredId ignoreId e then buildBlockedTiles es ignoreTypes ignoreId
     else if etype e \<in> set (ignoredTypesOf ignoreTypes)
       then buildBlockedTiles es ignoreTypes ignoreId
     else if hp e \<le> 0 then buildBlockedTiles es ignoreTypes ignoreId
     else if etype e \<in> set blockingTypes \<and> inBounds \<lfloor>x e\<rfloor> \<lfloor>y e\<rfloor>
       then insert (\<lfloor>x e\<rfloor>, \<lfloor>y e\<rfloor>) (buildBlockedTiles es ignoreTypes ignoreId)
     else buildBlockedTiles es ignoreTypes ignoreId)"

section \<open>Grid pathfinder (A*)\<close>

definition heuristic :: "tile \<Rightarrow> tile \<Rightarrow> real" where
  "heuristic a b = \<bar>of_int (fst a) - of_int (fst b)\<bar> + \<bar>of_int (snd a) - of_int (snd b)\<bar>"

definition neighbors :: "tile list" where
  "neighbors = [(1, 0), (- 1, 0), (0, 1), (0, - 1), (1, 1), (1, - 1), (- 1, 1), (- 1, - 1)]"

definition stepCost :: "tile \<Rightarrow> real" where
  "stepCost n = (if fst n = 0 \<or> snd n = 0 then 1 else 14 / 10)"

definition tileCenter :: "tile \<Rightarrow> Vector2" where
  "tileCenter k = \<lparr>x = of_int (fst k) + 1 / 2, y = of_int (snd k) + 1 / 2\<rparr>"

record AStar =
  openSet :: "(tile \<times> real) list"
  cameFrom :: "tile \<rightharpoonup> tile"
  gScore :: "tile \<rightharpoonup> real"

text \<open>\<^verbatim>\<open>popLowest\<close>: linear scan for the first entry of least \<open>f\<close>, then \<^verbatim>\<open>splice\<close>.\<close>

fun lowestIdx :: "real \<Rightarrow> nat \<Rightarrow> nat \<Rightarrow> (tile \<times> real) list \<Rightarrow> nat" where
  "lowestIdx bestF idx i [] = idx"
| "lowestIdx bestF idx i (ent # rest) =
    (if snd ent < bestF then lowestIdx (snd ent) i (Suc i) rest
     else lowestIdx bestF idx (Suc i) rest)"

definition popLowest :: "(tile \<times> real) list \<Rightarrow> (tile \<times> real) \<times> (tile \<times> real) list" where
  "popLowest os =
    (let idx = lowestIdx (snd (hd os)) 0 1 (tl os)
     in (os ! idx, take idx os @ drop (Suc idx) os))"

text \<open>
  The body of the loop over \<^verbatim>\<open>neighbors\<close> for one offset \<open>n\<close>. \<open>blk\<close> is the dynamic
  blocking test chosen by \<^verbatim>\<open>findPath\<close>; a missing \<open>gScore\<close> entry reads as
  \<^verbatim>\<open>Infinity\<close>, and \<^verbatim>\<open>Infinity < prevG\<close> is false.
\<close>

definition relax :: "(tile \<Rightarrow> bool) \<Rightarrow> tile \<Rightarrow> tile \<Rightarrow> AStar \<Rightarrow> tile \<Rightarrow> AStar" where
  "relax blk goal current s n =
    (let nx = fst current + fst n; ny = snd current + snd n; neighborKey = (nx, ny) in
     if \<not> inBounds nx ny then s
     else if \<not> isValidTerrain (of_int nx) (of_int ny) then s
     else if neighborKey \<noteq> goal \<and> blk neighborKey then s
     else case gScore s current of
        None \<Rightarrow> s
      | Some gc \<Rightarrow>
          let tentativeG = gc + stepCost n in
          if (case gScore s neighborKey of None \<Rightarrow> True | Some prevG \<Rightarrow> tentativeG < prevG)
          then s\<lparr>cameFrom := (cameFrom s)(neighborKey \<mapsto> current),
                 gScore := (gScore s)(neighborKey \<mapsto> tentativeG),
                 openSet := (if list_ex (\<lambda>ent. fst ent = neighborKey) (openSet s) then openSet s
                             else openSet s @ [(neighborKey, tentativeG + heuristic neighborKey goal)])\<rparr>
          else s)"

text \<open>
  Path reconstruction: follow \<^verbatim>\<open>cameFrom\<close> from the goal until the start key or a key
  without predecessor; the loop is not bounded syntactically, so not returning is \<open>None\<close>.
\<close>

partial_function (option) reconstruct ::
  "(tile \<rightharpoonup> tile) \<Rightarrow> tile \<Rightarrow> tile option \<Rightarrow> Vector2 list \<Rightarrow> Vector2 list option" where
  "reconstruct cf start curK acc =
    (case curK of
       None \<Rightarrow> Some acc
     | Some k \<Rightarrow> if k = start then Some acc
                else reconstruct cf start (cf k) (acc @ [tileCenter k]))"

text \<open>
  The main loop. The outer \<open>option\<close> is termination (\<open>None\<close>: the loop runs forever), the
  inner one the result (\<open>None\<close>: \<^verbatim>\<open>null\<close>, no path).
\<close>

partial_function (option) astarLoop ::
  "(tile \<Rightarrow> bool) \<Rightarrow> tile \<Rightarrow> tile \<Rightarrow> AStar \<Rightarrow> Vector2 list option option" where
  "astarLoop blk start goal s =
    (if openSet s = [] then Some None
     else
       let current = fst (fst (popLowest (openSet s)));
           s1 = s\<lparr>openSet := snd (popLowest (openSet s))\<rparr>
       in if current = goal
          then do {
            p \<leftarrow> reconstruct (cameFrom s1) start (Some current) [];
            Some (Some (rev (p @ [tileCenter start])))
          }
          else astarLoop blk start goal (foldl (relax blk goal current) s1 neighbors))"

text \<open>
  The dynamic blocking test of a neighbour tile: membership in the supplied set, or, when
  no set is supplied, \<^verbatim>\<open>isPositionBlocked\<close> at the tile's center.
\<close>

definition isTileBlocked ::
  "Entity list \<Rightarrow> string option \<Rightarrow> EntityType list option \<Rightarrow> tile set option \<Rightarrow> tile \<Rightarrow> bool" where
  "isTileBlocked es ignoreId ignoreTypes blockedTiles k =
    (case blockedTiles of
       Some b \<Rightarrow> k \<in> b
     | None \<Rightarrow> isPositionBlocked es (of_int (fst k) + 1 / 2) (of_int (snd k) + 1 / 2)
                 ignoreId ignoreTypes)"

definition initialAStar :: "tile \<Rightarrow> tile \<Rightarrow> AStar" where
  "initialAStar start goal =
    \<lparr>openSet = [(start, heuristic start goal)], cameFrom = Map.empty, gScore = [start \<mapsto> 0]\<rparr>"

definition findPath ::
  "Entity list \<Rightarrow> real \<Rightarrow> real \<Rightarrow> real \<Rightarrow> real \<Rightarrow> string option \<Rightarrow> EntityType list option
    \<Rightarrow> tile set option \<Rightarrow> Vector2 list option option" where
  "findPath es startX startY goalX goalY ignoreId ignoreTypes blockedTiles =
    (let start = (\<lfloor>startX\<rfloor>, \<lfloor>startY\<rfloor>);
         goal = (\<lfloor>goalX\<rfloor>, \<lfloor>goalY\<rfloor>)
     in astarLoop (isTileBlocked es ignoreId ignoreTypes blockedTiles) start goal
          (initialAStar start goal))"

text \<open>A sequence of tiles in which each step is one of the eight neighbour offsets.\<close>

fun adjacentPath :: "tile list \<Rightarrow> bool" where
  "adjacentPath (a # b # rest) =
     ((fst b - fst a, snd b - snd a) \<in> set neighbors \<and> adjacentPath (b # rest))"
| "adjacentPath _ = True"

text \<open>
  The score the search accumulates along a sequence of tiles, as the program computes it:
  \<^verbatim>\<open>tentativeG = gScore(current) + (orthogonal ? 1 : 1.4)\<close>, step after step from the
  first tile, each sum stored as a machine number. \<open>fl\<close> is the rounding applied to a sum
  and \<open>diag\<close> the value the literal \<^verbatim>\<open>1.4\<close> stands for: the identity and \<open>14/10\<close> in exact
  arithmetic (the \<open>stepCost\<close> of \<open>relax\<close>), round-to-nearest and the double next to \<open>1.4\<close>
  on the machine.
\<close>

definition stepCostOf :: "real \<Rightarrow> tile \<Rightarrow> real" where
  "stepCostOf diag n = (if fst n = 0 \<or> snd n = 0 then 1 else diag)"

definition doubleOnePointFour :: real where
  "doubleOnePointFour = 3152519739159347 / 2251799813685248"

fun scoreAlong :: "(real \<Rightarrow> real) \<Rightarrow> real \<Rightarrow> real \<Rightarrow> tile list \<Rightarrow> real" where
  "scoreAlong fl diag g (a # b # rest) =
     scoreAlong fl diag (fl (g + stepCostOf diag (fst b - fst a, snd b - snd a))) (b # rest)"
| "scoreAlong fl diag g _ = g"

section \<open>Entity construction and the session factory\<close>

text \<open>An object literal that lists only the mandatory fields leaves the others undefined.\<close>

definition mkEntity ::
  "string \<Rightarrow> EntityType \<Rightarrow> real \<Rightarrow> real \<Rightarrow> real \<Rightarrow> real \<Rightarrow> real \<Rightarrow> string \<Rightarrow> Entity" where
  "mkEntity i t px py h mh r ow =
    \<lparr>x = px, y = py, entId = i, etype = t, hp = h, maxHp = mh, radius = r, ownerId = ow,
     targetId = None, attackCooldown = None, lastAttackerId = None, vx = None, vy = None,
     facing = None, path = None, pathIndex = None, pathCooldown = None, damage = None,
     range_e = None, speed = None, unitType = None\<rparr>"

record LobbyPlayer =
  lp_id :: string
  lp_peerId :: string
  lp_name :: string
  lp_color :: string
  lp_isHost :: bool

definition PLAYER_COLORS :: "string list" where
  "PLAYER_COLORS = [''#3b82f6'', ''#ef4444'', ''#22c55e'', ''#f59e0b'',
                    ''#8b5cf6'', ''#ec4899'', ''#06b6d4'', ''#f97316'']"

fun showNat :: "nat \<Rightarrow> string" where
  "showNat n = (if n < 10 then [''0123456789'' ! n]
                else showNat (n div 10) @ [''0123456789'' ! (n mod 10)])"

text \<open>
  One round of the player loop of \<^verbatim>\<open>createInitialState\<close>. Beyond the eighth slot
  \<^verbatim>\<open>BASE_POSITIONS[i]\<close> is undefined and reading its \<^verbatim>\<open>x\<close> throws: the result is \<open>None\<close>.
\<close>

definition initPlayer ::
  "LobbyPlayer list \<Rightarrow> (string \<rightharpoonup> PlayerState) \<times> Entity list \<Rightarrow> nat
    \<Rightarrow> ((string \<rightharpoonup> PlayerState) \<times> Entity list) option" where
  "initPlayer lobbyPlayers st i =
    (let pid = ''p'' @ showNat (i + 1);
         lobbyPlayer = find (\<lambda>lp. lp_id lp = pid) lobbyPlayers
     in if i < length BASE_POSITIONS then
          let basePos = BASE_POSITIONS ! i;
              pl = \<lparr>playerId = pid,
                    name = (case lobbyPlayer of
                              Some lp \<Rightarrow> if lp_name lp = [] then ''Player '' @ showNat (i + 1)
                                         else lp_name lp
                            | None \<Rightarrow> ''Player '' @ showNat (i + 1)),
                    gold = 100, currentPop = 0, maxPop = 5, basePosition = basePos,
                    color = (case lobbyPlayer of
                               Some lp \<Rightarrow> if lp_color lp = [] then PLAYER_COLORS ! i
                                          else lp_color lp
                             | None \<Rightarrow> PLAYER_COLORS ! i),
                    defeated = False\<rparr>
          in Some ((fst st)(pid \<mapsto> pl),
                   snd st @ [mkEntity (''base_'' @ pid) BASE (x basePos) (y basePos)
                                      1000 1000 (15 / 10) pid])
        else None)"

fun initPlayers ::
  "LobbyPlayer list \<Rightarrow> nat list \<Rightarrow> (string \<rightharpoonup> PlayerState) \<times> Entity list
    \<Rightarrow> ((string \<rightharpoonup> PlayerState) \<times> Entity list) option" where
  "initPlayers lobbyPlayers [] st = Some st"
| "initPlayers lobbyPlayers (i # rest) st =
    (case initPlayer lobbyPlayers st i of
       None \<Rightarrow> None
     | Some st' \<Rightarrow> initPlayers lobbyPlayers rest st')"

text \<open>\<open>now\<close> is the value of \<^verbatim>\<open>Date.now()\<close>.\<close>

definition createInitialState :: "real \<Rightarrow> nat \<Rightarrow> LobbyPlayer list \<Rightarrow> GameState option" where
  "createInitialState now pc lobbyPlayers =
    (case initPlayers lobbyPlayers [0..<pc] (Map.empty, []) of
       None \<Rightarrow> None
     | Some st \<Rightarrow>
         let enemyBaseHp = 3000 + real pc * 1000 in
         Some \<lparr>players = fst st,
               entities = snd st @ [mkEntity ''enemy_base'' ENEMY_BASE (x enemyBasePos)
                                      (y enemyBasePos) enemyBaseHp enemyBaseHp 2 ''enemy''],
               lastTick = now, gameOver = False, winner = None, waveNumber = 1,
               playerCount = Some pc\<rparr>)"

section \<open>Economy operations\<close>

text \<open>
  \<open>rnd\<close> is the value drawn from \<^verbatim>\<open>Math.random()\<close> and \<open>newId\<close> the one produced by
  \<^verbatim>\<open>generateId()\<close>.
\<close>

definition spawnUnit :: "real \<Rightarrow> string \<Rightarrow> string \<Rightarrow> UnitTypeKey \<Rightarrow> GameState \<Rightarrow> GameState" where
  "spawnUnit rnd newId pid unitTypeKey s =
    (case players s pid of
       None \<Rightarrow> s
     | Some player \<Rightarrow>
         if defeated player then s
         else
           let unitStats = UNIT_TYPES unitTypeKey in
           if gold player \<ge> u_cost unitStats \<and> currentPop player < maxPop player then
             let player' = player\<lparr>gold := gold player - u_cost unitStats,
                                  currentPop := currentPop player + 1\<rparr>;
                 angle = rnd * pi * 2;
                 spawnX = x (basePosition player) + cos angle * 2;
                 spawnY = y (basePosition player) + sin angle * 2
             in s\<lparr>players := (players s)(pid \<mapsto> player'),
                  entities := entities s @
                    [(mkEntity newId UNIT spawnX spawnY (u_hp unitStats) (u_hp unitStats)
                        (u_radius unitStats) pid)
                       \<lparr>damage := Some (u_damage unitStats), range_e := Some (u_range unitStats),
                        speed := Some (u_speed unitStats),
                        unitType := Some (unitTypeName unitTypeKey),
                        attackCooldown := Some 0\<rparr>]\<rparr>
           else s)"

definition occupied :: "Entity list \<Rightarrow> real \<Rightarrow> real \<Rightarrow> bool" where
  "occupied es sx sy = list_ex (\<lambda>e. \<bar>x e - sx\<bar> < 8 / 10 \<and> \<bar>y e - sy\<bar> < 8 / 10) es"

definition buildHouse :: "string \<Rightarrow> string \<Rightarrow> real \<Rightarrow> real \<Rightarrow> GameState \<Rightarrow> GameState" where
  "buildHouse newId pid px py s =
    (case players s pid of
       None \<Rightarrow> s
     | Some player \<Rightarrow>
         if defeated player then s
         else
           let houseCost = 50;
               sx = snapToTileCoord px;
               sy = snapToTileCoord py;
               dist = getDistance \<lparr>x = sx, y = sy\<rparr> (basePosition player)
           in if gold player \<ge> houseCost \<and> dist \<le> BUILD_RADIUS \<and>
                 \<not> occupied (entities s) sx sy \<and> isValidTerrain sx sy
              then s\<lparr>players := (players s)(pid \<mapsto>
                          player\<lparr>gold := gold player - houseCost, maxPop := maxPop player + 5\<rparr>),
                      entities := entities s @ [mkEntity newId HOUSE sx sy 100 100 1 pid]\<rparr>
              else s)"

definition buildMine :: "string \<Rightarrow> string \<Rightarrow> real \<Rightarrow> real \<Rightarrow> GameState \<Rightarrow> GameState" where
  "buildMine newId pid px py s =
    (case players s pid of
       None \<Rightarrow> s
     | Some player \<Rightarrow>
         if defeated player then s
         else
           let sx = snapToTileCoord px;
               sy = snapToTileCoord py;
               dist = getDistance \<lparr>x = sx, y = sy\<rparr> (basePosition player)
           in if gold player \<ge> MINE_COST \<and> dist \<le> BUILD_RADIUS \<and>
                 \<not> occupied (entities s) sx sy \<and> isValidTerrain sx sy
              then s\<lparr>players := (players s)(pid \<mapsto> player\<lparr>gold := gold player - MINE_COST\<rparr>),
                      entities := entities s @ [mkEntity newId MINE sx sy 150 150 1 pid]\<rparr>
              else s)"

definition buildWall :: "string \<Rightarrow> string \<Rightarrow> real \<Rightarrow> real \<Rightarrow> GameState \<Rightarrow> GameState" where
  "buildWall newId pid px py s =
    (case players s pid of
       None \<Rightarrow> s
     | Some player \<Rightarrow>
         if defeated player then s
         else
           let sx = snapToTileCoord px;
               sy = snapToTileCoord py
           in if gold player \<ge> WALL_COST \<and> \<not> occupied (entities s) sx sy \<and> isValidTerrain sx sy
              then s\<lparr>players := (players s)(pid \<mapsto> player\<lparr>gold := gold player - WALL_COST\<rparr>),
                      entities := entities s @ [mkEntity newId WALL sx sy 200 200 (8 / 10) pid]\<rparr>
              else s)"

text \<open>\<open>pc\<close> is the engine's own \<^verbatim>\<open>playerCount\<close> field.\<close>

definition spawnZombie :: "nat \<Rightarrow> real \<Rightarrow> string \<Rightarrow> GameState \<Rightarrow> GameState" where
  "spawnZombie pc rnd newId s =
    (case find (\<lambda>e. etype e = ENEMY_BASE) (entities s) of
       None \<Rightarrow> s
     | Some enemyBase \<Rightarrow>
         let playerMultiplier = 1 + (real pc - 1) * (3 / 10);
             zhp = of_int \<lfloor>(30 + of_int (waveNumber s) * 5) * playerMultiplier\<rfloor>;
             zdamage = of_int \<lfloor>(5 + of_int (waveNumber s) * 1) * playerMultiplier\<rfloor>;
             angle = rnd * pi * 2;
             spawnX = x enemyBase + cos angle * 2;
             spawnY = y enemyBase + sin angle * 2
         in s\<lparr>entities := entities s @
                [(mkEntity newId ZOMBIE spawnX spawnY zhp zhp (4 / 10) ''enemy'')
                   \<lparr>damage := Some zdamage, range_e := Some (8 / 10), speed := Some (8 / 10),
                    attackCooldown := Some 0\<rparr>]\<rparr>)"


section \<open>Target and wall searches\<close>

text \<open>
  The searches return the position of the entity in the entity array: the tick loop
  mutates the object it gets back, so the model needs its place in the store. The running
  best is \<open>None\<close> while \<^verbatim>\<open>minDst\<close> is still \<^verbatim>\<open>Infinity\<close>.
\<close>

fun findIndexFrom :: "nat \<Rightarrow> ('a \<Rightarrow> bool) \<Rightarrow> 'a list \<Rightarrow> nat option" where
  "findIndexFrom i P [] = None"
| "findIndexFrom i P (e # rest) = (if P e then Some i else findIndexFrom (Suc i) P rest)"

fun findClosestTargetLoop ::
  "Entity \<Rightarrow> (string \<Rightarrow> bool) \<Rightarrow> EntityType list \<Rightarrow> nat \<Rightarrow> (nat \<times> real) option \<Rightarrow> Entity list
    \<Rightarrow> nat option" where
  "findClosestTargetLoop source owners excluded i best [] = map_option fst best"
| "findClosestTargetLoop source owners excluded i best (e # rest) =
    (if owners (ownerId e) \<and> hp e > 0 then
       if etype e \<in> set excluded then findClosestTargetLoop source owners excluded (Suc i) best rest
       else
         let d = getDistance source e in
         if (case best of None \<Rightarrow> True | Some (_, minDst) \<Rightarrow> d < minDst)
         then findClosestTargetLoop source owners excluded (Suc i) (Some (i, d)) rest
         else findClosestTargetLoop source owners excluded (Suc i) best rest
     else findClosestTargetLoop source owners excluded (Suc i) best rest)"

text \<open>\<open>owners\<close> is the test \<^verbatim>\<open>targetOwners.includes(e.ownerId)\<close>.\<close>

definition findClosestTarget ::
  "Entity list \<Rightarrow> Entity \<Rightarrow> (string \<Rightarrow> bool) \<Rightarrow> EntityType list \<Rightarrow> nat option" where
  "findClosestTarget es source owners excluded =
     findClosestTargetLoop source owners excluded 0 None es"

definition wallRadiusOf :: "Entity \<Rightarrow> real" where
  "wallRadiusOf wall = (if radius wall = 0 then 8 / 10 else radius wall)"

fun findBlockingWallLoop ::
  "Entity \<Rightarrow> Entity \<Rightarrow> nat \<Rightarrow> (nat \<times> real) option \<Rightarrow> Entity list \<Rightarrow> nat option" where
  "findBlockingWallLoop source target i best [] = map_option fst best"
| "findBlockingWallLoop source target i best (wall # rest) =
    (if etype wall = WALL \<and> hp wall > 0 then
       let distToWall = getDistance source wall in
       if distToWall > WALL_TARGET_MAX_DISTANCE
         then findBlockingWallLoop source target (Suc i) best rest
       else if distToWall \<ge> getDistance source target
         then findBlockingWallLoop source target (Suc i) best rest
       else if distancePointToSegment (x wall) (y wall) (x source) (y source) (x target) (y target)
                 > wallRadiusOf wall + WALL_BLOCK_TOLERANCE
         then findBlockingWallLoop source target (Suc i) best rest
       else if (case best of None \<Rightarrow> True | Some (_, bestDist) \<Rightarrow> distToWall < bestDist)
         then findBlockingWallLoop source target (Suc i) (Some (i, distToWall)) rest
       else findBlockingWallLoop source target (Suc i) best rest
     else findBlockingWallLoop source target (Suc i) best rest)"

definition findBlockingWall :: "Entity list \<Rightarrow> Entity \<Rightarrow> Entity \<Rightarrow> nat option" where
  "findBlockingWall es source target =
    (if filter (\<lambda>e. etype e = WALL \<and> hp e > 0) es = [] then None
     else findBlockingWallLoop source target 0 None es)"

fun findNearestWallLoop ::
  "Entity \<Rightarrow> real \<Rightarrow> nat \<Rightarrow> (nat \<times> real) option \<Rightarrow> Entity list \<Rightarrow> nat option" where
  "findNearestWallLoop source maxDistance i best [] = map_option fst best"
| "findNearestWallLoop source maxDistance i best (wall # rest) =
    (if etype wall \<noteq> WALL \<or> hp wall \<le> 0
       then findNearestWallLoop source maxDistance (Suc i) best rest
     else
       let dist = getDistance source wall in
       if dist \<le> maxDistance \<and> (case best of None \<Rightarrow> True | Some (_, bestDist) \<Rightarrow> dist < bestDist)
       then findNearestWallLoop source maxDistance (Suc i) (Some (i, dist)) rest
       else findNearestWallLoop source maxDistance (Suc i) best rest)"

definition findNearestWall :: "Entity list \<Rightarrow> Entity \<Rightarrow> real \<Rightarrow> nat option" where
  "findNearestWall es source maxDistance = findNearestWallLoop source maxDistance 0 None es"

section \<open>The tick: per-entity state machine\<close>

text \<open>
  Entities are objects in an array and the loop mutates them in place, the current one and
  its target alike. The model threads the array and writes each assignment back at the
  object's index, so an update is seen by every later read, whatever aliases what.
\<close>

definition upd :: "nat \<Rightarrow> (Entity \<Rightarrow> Entity) \<Rightarrow> Entity list \<Rightarrow> Entity list" where
  "upd i f es = es[i := f (es ! i)]"

text \<open>\<^verbatim>\<open>v || d\<close> on an optional number: undefined and \<open>0\<close> give the default.\<close>

definition orElse :: "real option \<Rightarrow> real \<Rightarrow> real" where
  "orElse v d = (case v of None \<Rightarrow> d | Some r \<Rightarrow> if r = 0 then d else r)"

definition tickAttackCooldown :: "real \<Rightarrow> Entity \<Rightarrow> Entity" where
  "tickAttackCooldown deltaTime e =
    (case attackCooldown e of
       None \<Rightarrow> e
     | Some c \<Rightarrow> if c \<noteq> 0 \<and> c > 0 then e\<lparr>attackCooldown := Some (c - deltaTime)\<rparr> else e)"

definition lockedTargetOf :: "Entity list \<Rightarrow> Entity \<Rightarrow> nat option" where
  "lockedTargetOf es entity =
    (case targetId entity of
       None \<Rightarrow> None
     | Some t \<Rightarrow> if t = [] then None else findIndexFrom 0 (\<lambda>e. entId e = t \<and> hp e > 0) es)"

definition primaryTargetOf :: "(string \<rightharpoonup> PlayerState) \<Rightarrow> Entity list \<Rightarrow> Entity \<Rightarrow> nat option" where
  "primaryTargetOf pls es entity = findClosestTarget es entity (\<lambda>ow. pls ow \<noteq> None) [WALL]"

definition acquireTarget :: "(string \<rightharpoonup> PlayerState) \<Rightarrow> Entity list \<Rightarrow> nat \<Rightarrow> nat option" where
  "acquireTarget pls es i =
    (let entity = es ! i in
     if etype entity = ZOMBIE then
       (case primaryTargetOf pls es entity of
          None \<Rightarrow> None
        | Some primaryTarget \<Rightarrow>
            (case lockedTargetOf es entity of
               None \<Rightarrow> Some primaryTarget
             | Some lockedTarget \<Rightarrow>
                 if etype (es ! lockedTarget) = WALL then Some lockedTarget
                 else Some primaryTarget))
     else findClosestTarget es entity (\<lambda>ow. ow = ''enemy'') [])"

definition speedOf :: "Entity \<Rightarrow> real" where
  "speedOf entity = max (1 / 10) (orElse (speed entity) 1)"

definition ignoreTypesOf :: "Entity \<Rightarrow> EntityType list option" where
  "ignoreTypesOf entity = (if etype entity = ZOMBIE then Some [ENEMY_BASE] else None)"

definition needsNewPath :: "Entity \<Rightarrow> Entity \<Rightarrow> bool" where
  "needsNewPath entity target =
    (path entity = None \<or> targetId entity \<noteq> Some (entId target) \<or> pathIndex entity = None \<or>
     (case pathIndex entity of
        None \<Rightarrow> True
      | Some k \<Rightarrow> k \<ge> (case path entity of None \<Rightarrow> 0 | Some p \<Rightarrow> length p)))"

text \<open>
  The zombie's detour decision inside the planning branch: the wall in the way, then any
  wall nearby when no route exists. The result is the target wanted and the route to it.
\<close>

definition planAroundWalls ::
  "Entity list \<Rightarrow> nat \<Rightarrow> nat \<Rightarrow> tile set \<Rightarrow> Vector2 list option
    \<Rightarrow> (nat \<times> Vector2 list option) option" where
  "planAroundWalls es i target blockedTiles path0 =
    (let entity = es ! i;
         spd = speedOf entity;
         ignoreTypes = ignoreTypesOf entity;
         directTime = getDistance entity (es ! target) / spd
     in do {
       (desired1, path1) \<leftarrow>
         (case findBlockingWall es entity (es ! target) of
            None \<Rightarrow> Some (target, path0)
          | Some wallTarget \<Rightarrow>
              let distToWall = getDistance entity (es ! wallTarget);
                  shouldBreakWall =
                    ((case path0 of
                        None \<Rightarrow> True
                      | Some p \<Rightarrow> getPathLength p / spd > directTime * (125 / 100))
                     \<or> distToWall \<le> WALL_BREAK_CLOSE_DISTANCE)
              in if shouldBreakWall then do {
                   p \<leftarrow> findPath es (x entity) (y entity) (x (es ! wallTarget)) (y (es ! wallTarget))
                          (Some (entId entity)) ignoreTypes (Some blockedTiles);
                   Some (wallTarget, p)
                 }
                 else Some (target, path0));
       (case path1 of
          Some p \<Rightarrow> Some (desired1, path1)
        | None \<Rightarrow>
            (case findNearestWall es entity WALL_TARGET_MAX_DISTANCE of
               None \<Rightarrow> Some (desired1, path1)
             | Some nearbyWall \<Rightarrow> do {
                 p \<leftarrow> findPath es (x entity) (y entity) (x (es ! nearbyWall)) (y (es ! nearbyWall))
                        (Some (entId entity)) ignoreTypes (Some blockedTiles);
                 Some (nearbyWall, p)
               }))
     })"

text \<open>
  The end of the planning branch: keep the route found (or none), lock the wanted target
  and restart the throttle.
\<close>

definition storePlan :: "nat \<Rightarrow> nat \<Rightarrow> Vector2 list option \<Rightarrow> Entity list \<Rightarrow> Entity list" where
  "storePlan i desiredTarget path1 es1 =
    (let es2 = (case path1 of
                  None \<Rightarrow> upd i (\<lambda>e. e\<lparr>path := None, pathIndex := None\<rparr>) es1
                | Some p \<Rightarrow>
                    if length p > 0 then upd i (\<lambda>e. e\<lparr>path := Some p, pathIndex := Some 0\<rparr>) es1
                    else upd i (\<lambda>e. e\<lparr>path := None, pathIndex := None\<rparr>) es1)
     in upd i (\<lambda>e. e\<lparr>targetId := Some (entId (es2 ! desiredTarget)),
                       pathCooldown := Some PATH_RECALC_INTERVAL\<rparr>) es2)"

text \<open>The planning branch: the route to the target, the zombie's detour, the bookkeeping.\<close>

definition replan :: "tile set \<Rightarrow> Entity list \<Rightarrow> nat \<Rightarrow> nat \<Rightarrow> (Entity list \<times> nat) option" where
  "replan blockedTiles es1 i target =
    (let entity = es1 ! i in
     do {
       path0 \<leftarrow> findPath es1 (x entity) (y entity) (x (es1 ! target)) (y (es1 ! target))
                  (Some (entId entity)) (ignoreTypesOf entity) (Some blockedTiles);
       (desiredTarget, path1) \<leftarrow>
         (if etype entity = ZOMBIE \<and> etype (es1 ! target) \<noteq> WALL
          then planAroundWalls es1 i target blockedTiles path0
          else Some (target, path0));
       Some (storePlan i desiredTarget path1 es1, desiredTarget)
     })"

text \<open>
  Path planning for entity \<open>i\<close> pursuing \<open>target\<close>: the throttle, the replanning branch and
  the fall-back onto a locked target. Returns the array and the target then in force.
\<close>

definition planPath ::
  "tile set \<Rightarrow> tile set \<Rightarrow> real \<Rightarrow> Entity list \<Rightarrow> nat \<Rightarrow> nat \<Rightarrow> (Entity list \<times> nat) option" where
  "planPath blockedTilesDefault blockedTilesIgnoreEnemyBase deltaTime es0 i target =
    (let blockedTiles = (if etype (es0 ! i) = ZOMBIE then blockedTilesIgnoreEnemyBase
                         else blockedTilesDefault);
         es1 = upd i (\<lambda>e. e\<lparr>pathCooldown :=
                  Some (max 0 ((case pathCooldown e of None \<Rightarrow> 0 | Some c \<Rightarrow> c) - deltaTime))\<rparr>) es0;
         entity = es1 ! i
     in if needsNewPath entity (es1 ! target) \<and>
           (case pathCooldown entity of None \<Rightarrow> False | Some c \<Rightarrow> c \<le> 0)
        then replan blockedTiles es1 i target
        else if (case targetId entity of
                   None \<Rightarrow> False
                 | Some t \<Rightarrow> t \<noteq> [] \<and> t \<noteq> entId (es1 ! target))
        then (case lockedTargetOf es1 entity of
                None \<Rightarrow> Some (es1, target)
              | Some lockedTarget \<Rightarrow> Some (es1, lockedTarget))
        else Some (es1, target))"

text \<open>
  What happens when the next position is refused (both movement branches): stop, drop the
  path, and, for a zombie, lock onto a wall close by.
\<close>

definition onBlocked :: "nat \<Rightarrow> Entity list \<Rightarrow> Entity list" where
  "onBlocked i es =
    (let es1 = upd i (\<lambda>e. e\<lparr>vx := Some 0, vy := Some 0, path := None, pathIndex := None,
                             pathCooldown := Some PATH_RECALC_INTERVAL\<rparr>) es
     in if etype (es1 ! i) = ZOMBIE then
          (case findNearestWall es1 (es1 ! i) WALL_BREAK_CLOSE_DISTANCE of
             None \<Rightarrow> es1
           | Some nearbyWall \<Rightarrow>
               upd i (\<lambda>e. e\<lparr>targetId := Some (entId (es1 ! nearbyWall)),
                             pathCooldown := Some 0\<rparr>) es1)
        else es1)"

definition moveTo :: "nat \<Rightarrow> real \<Rightarrow> real \<Rightarrow> real \<Rightarrow> real \<Rightarrow> real \<Rightarrow> Entity list \<Rightarrow> Entity list" where
  "moveTo i newX newY dx dy len es =
    (if isValidTerrain newX newY \<and>
        \<not> isPositionBlocked es newX newY (Some (entId (es ! i))) (ignoreTypesOf (es ! i))
     then upd i (\<lambda>e. e\<lparr>x := newX, y := newY, vx := Some (dx / len), vy := Some (dy / len),
                        facing := Some (getFacingFromVector dx dy)\<rparr>) es
     else onBlocked i es)"

definition attack :: "nat \<Rightarrow> nat \<Rightarrow> Entity list \<Rightarrow> Entity list" where
  "attack i target es =
    (let dx = x (es ! target) - x (es ! i);
         dy = y (es ! target) - y (es ! i);
         es1 = upd i (\<lambda>e. e\<lparr>vx := Some 0, vy := Some 0,
                             facing := Some (getFacingFromVector dx dy),
                             path := None, pathIndex := None\<rparr>) es
     in if (case attackCooldown (es1 ! i) of None \<Rightarrow> True | Some c \<Rightarrow> c = 0 \<or> c \<le> 0) then
          let es2 = upd target (\<lambda>t. t\<lparr>hp := hp t - (case damage (es1 ! i) of
                                                        None \<Rightarrow> 0
                                                      | Some d \<Rightarrow> d),
                                       lastAttackerId := Some (ownerId (es1 ! i))\<rparr>) es1
          in upd i (\<lambda>e. e\<lparr>attackCooldown := Some 1\<rparr>) es2
        else es1)"

definition followPath :: "real \<Rightarrow> nat \<Rightarrow> Vector2 \<Rightarrow> Entity list \<Rightarrow> Entity list" where
  "followPath deltaTime i waypoint es =
    (let entity = es ! i;
         dx = x waypoint - x entity;
         dy = y waypoint - y entity;
         len = sqrt (dx * dx + dy * dy)
     in if len > 0 then
          let moveStep = speedOf entity * deltaTime;
              step = min moveStep len;
              stepX = (dx / len) * step;
              stepY = (dy / len) * step;
              es1 = moveTo i (x entity + stepX) (y entity + stepY) dx dy len es
          in if sqrt ((x waypoint - x (es1 ! i))\<^sup>2 + (y waypoint - y (es1 ! i))\<^sup>2) < 2 / 10
             then upd i (\<lambda>e. e\<lparr>pathIndex :=
                      Some ((case pathIndex e of None \<Rightarrow> 0 | Some k \<Rightarrow> k) + 1)\<rparr>) es1
             else es1
        else es)"

definition directMove :: "real \<Rightarrow> nat \<Rightarrow> nat \<Rightarrow> Entity list \<Rightarrow> Entity list" where
  "directMove deltaTime i target es =
    (let entity = es ! i;
         dx = x (es ! target) - x entity;
         dy = y (es ! target) - y entity;
         len = sqrt (dx * dx + dy * dy)
     in if len > 0 then
          let moveSpeed = speedOf entity * deltaTime;
              vx' = (dx / len) * moveSpeed;
              vy' = (dy / len) * moveSpeed
          in moveTo i (x entity + vx') (y entity + vy') dx dy len es
        else es)"

text \<open>
  Range check, then movement. \<open>dst\<close> (the code's \<^verbatim>\<open>dist\<close>) and \<open>effectiveTargetRadius\<close> are the values computed
  before a far wall was dropped; the code does not recompute them for the new target.
\<close>

definition act :: "real \<Rightarrow> nat \<Rightarrow> nat \<Rightarrow> real \<Rightarrow> real \<Rightarrow> Entity list \<Rightarrow> Entity list" where
  "act deltaTime i target dst effectiveTargetRadius es =
    (let entity = es ! i;
         noPath = (if (case range_e entity of
                         None \<Rightarrow> False
                       | Some r \<Rightarrow> r \<noteq> 0 \<and> dst > r + effectiveTargetRadius)
                   then directMove deltaTime i target es
                   else es)
     in if (case range_e entity of
              None \<Rightarrow> False
            | Some r \<Rightarrow> r \<noteq> 0 \<and> dst \<le> r + effectiveTargetRadius + ATTACK_RANGE_BUFFER)
        then attack i target es
        else (case path entity of
                None \<Rightarrow> noPath
              | Some p \<Rightarrow>
                  (case pathIndex entity of
                     None \<Rightarrow> noPath
                   | Some k \<Rightarrow> if k < length p then followPath deltaTime i (p ! k) es
                               else noPath)))"

text \<open>The callback of \<^verbatim>\<open>entities.forEach\<close> for the entity at index \<open>i\<close>.\<close>

definition entityStep ::
  "(string \<rightharpoonup> PlayerState) \<Rightarrow> tile set \<Rightarrow> tile set \<Rightarrow> real \<Rightarrow> Entity list \<Rightarrow> nat
    \<Rightarrow> Entity list option" where
  "entityStep pls blockedTilesDefault blockedTilesIgnoreEnemyBase deltaTime es0 i =
    (let es1 = upd i (tickAttackCooldown deltaTime) es0 in
     if etype (es1 ! i) = UNIT \<or> etype (es1 ! i) = ZOMBIE then
       (case acquireTarget pls es1 i of
          None \<Rightarrow> Some es1
        | Some target0 \<Rightarrow> do {
            (es2, target) \<leftarrow> planPath blockedTilesDefault blockedTilesIgnoreEnemyBase
                               deltaTime es1 i target0;
            let dist = getDistance (es2 ! i) (es2 ! target);
                targetRadius = radius (es2 ! target);
                effectiveTargetRadius =
                  (if etype (es2 ! target) = WALL then min targetRadius (6 / 10) else targetRadius)
            in if etype (es2 ! target) = WALL \<and> dist > WALL_TARGET_MAX_DISTANCE then
                 let es3 = upd i (\<lambda>e. e\<lparr>targetId := None, path := None, pathIndex := None,
                                         pathCooldown := Some 0\<rparr>) es2
                 in if etype (es3 ! i) = ZOMBIE then
                      (case primaryTargetOf pls es3 (es3 ! i) of
                         None \<Rightarrow> Some es3
                       | Some primaryTarget \<Rightarrow>
                           Some (act deltaTime i primaryTarget dist effectiveTargetRadius es3))
                    else Some es3
               else Some (act deltaTime i target dist effectiveTargetRadius es2)
          })
     else Some es1)"

fun entityLoop ::
  "(string \<rightharpoonup> PlayerState) \<Rightarrow> tile set \<Rightarrow> tile set \<Rightarrow> real \<Rightarrow> nat list \<Rightarrow> Entity list
    \<Rightarrow> Entity list option" where
  "entityLoop pls bd bi deltaTime [] es = Some es"
| "entityLoop pls bd bi deltaTime (i # rest) es =
    (case entityStep pls bd bi deltaTime es i of
       None \<Rightarrow> None
     | Some es' \<Rightarrow> entityLoop pls bd bi deltaTime rest es')"

section \<open>The tick: removal sweep and win condition\<close>

text \<open>
  The callback of the \<^verbatim>\<open>filter\<close> for one entity with \<open>hp \<le> 0\<close>: bounty, defeat marking,
  population. A string tested for truth is false when absent or empty.
\<close>

definition creditBounty :: "Entity \<Rightarrow> (string \<rightharpoonup> PlayerState) \<Rightarrow> (string \<rightharpoonup> PlayerState)" where
  "creditBounty e pls =
    (if etype e = ZOMBIE then
       (case lastAttackerId e of
          None \<Rightarrow> pls
        | Some k \<Rightarrow>
            if k = [] then pls
            else (case pls k of
                    None \<Rightarrow> pls
                  | Some killer \<Rightarrow>
                      if \<not> defeated killer
                      then pls(k \<mapsto> killer\<lparr>gold := gold killer + ZOMBIE_BOUNTY\<rparr>)
                      else pls))
     else pls)"

definition markDefeated :: "Entity \<Rightarrow> (string \<rightharpoonup> PlayerState) \<Rightarrow> (string \<rightharpoonup> PlayerState)" where
  "markDefeated e pls =
    (if etype e = BASE \<and> ownerId e \<noteq> [] then
       (case pls (ownerId e) of
          None \<Rightarrow> pls
        | Some pl \<Rightarrow> pls(ownerId e \<mapsto> pl\<lparr>defeated := True\<rparr>))
     else pls)"

definition releasePop :: "Entity \<Rightarrow> (string \<rightharpoonup> PlayerState) \<Rightarrow> (string \<rightharpoonup> PlayerState)" where
  "releasePop e pls =
    (if etype e = UNIT then
       (case pls (ownerId e) of
          None \<Rightarrow> pls
        | Some pl \<Rightarrow> pls(ownerId e \<mapsto> pl\<lparr>currentPop := max 0 (currentPop pl - 1)\<rparr>))
     else pls)"

definition onRemoved :: "Entity \<Rightarrow> (string \<rightharpoonup> PlayerState) \<Rightarrow> (string \<rightharpoonup> PlayerState)" where
  "onRemoved e pls = releasePop e (markDefeated e (creditBounty e pls))"

fun sweep ::
  "Entity list \<Rightarrow> (string \<rightharpoonup> PlayerState) \<Rightarrow> Entity list \<times> (string \<rightharpoonup> PlayerState)" where
  "sweep [] pls = ([], pls)"
| "sweep (e # rest) pls =
    (if hp e \<le> 0 then sweep rest (onRemoved e pls)
     else (e # fst (sweep rest pls), snd (sweep rest pls)))"

definition checkGameOver :: "GameState \<Rightarrow> GameState" where
  "checkGameOver s =
    (let remainingPlayerBases = filter (\<lambda>e. etype e = BASE) (entities s);
         enemyBase = find (\<lambda>e. entId e = ''enemy_base'') (entities s)
     in if length remainingPlayerBases = 0 then s\<lparr>gameOver := True, winner := Some ''ZOMBIES''\<rparr>
        else if enemyBase = None then s\<lparr>gameOver := True, winner := Some ''PLAYERS''\<rparr>
        else s)"

definition update :: "real \<Rightarrow> GameState \<Rightarrow> GameState option" where
  "update deltaTime s =
    (if gameOver s then Some s
     else
       let blockedTilesDefault = buildBlockedTiles (entities s) None None;
           blockedTilesIgnoreEnemyBase = buildBlockedTiles (entities s) (Some [ENEMY_BASE]) None
       in do {
         es \<leftarrow> entityLoop (players s) blockedTilesDefault blockedTilesIgnoreEnemyBase deltaTime
                 [0..<length (entities s)] (entities s);
         let swept = sweep es (players s)
         in Some (checkGameOver (s\<lparr>entities := fst swept, players := snd swept\<rparr>))
       })"

section \<open>The removal sweep of the older engine copy (services/GameEngine.ts)\<close>

text \<open>
  The repository holds an older copy of the engine whose tick never records a last
  attacker. Its removal callback differs from the one above in the bounty only: every
  player that is not defeated receives it (\<^verbatim>\<open>Object.values(players).forEach\<close>).
\<close>

definition creditBountyLegacy :: "Entity \<Rightarrow> (string \<rightharpoonup> PlayerState) \<Rightarrow> (string \<rightharpoonup> PlayerState)" where
  "creditBountyLegacy e pls =
    (if etype e = ZOMBIE then
       (\<lambda>k. case pls k of
               None \<Rightarrow> None
             | Some player \<Rightarrow>
                 if \<not> defeated player then Some (player\<lparr>gold := gold player + ZOMBIE_BOUNTY\<rparr>)
                 else Some player)
     else pls)"

definition onRemovedLegacy :: "Entity \<Rightarrow> (string \<rightharpoonup> PlayerState) \<Rightarrow> (string \<rightharpoonup> PlayerState)" where
  "onRemovedLegacy e pls = releasePop e (markDefeated e (creditBountyLegacy e pls))"

fun sweepLegacy ::
  "Entity list \<Rightarrow> (string \<rightharpoonup> PlayerState) \<Rightarrow> Entity list \<times> (string \<rightharpoonup> PlayerState)" where
  "sweepLegacy [] pls = ([], pls)"
| "sweepLegacy (e # rest) pls =
    (if hp e \<le> 0 then sweepLegacy rest (onRemovedLegacy e pls)
     else (e # fst (sweepLegacy rest pls), snd (sweepLegacy rest pls)))"

section \<open>The engine's operations as one interface\<close>

text \<open>
  The public operations a session is driven by, with their arguments (and the random draws
  they consume), and the states a session can reach from \<^verbatim>\<open>createInitialState\<close> through
  them.
\<close>

datatype EngineOp =
    Update real
  | SpawnUnit real string string UnitTypeKey
  | BuildHouse string string real real
  | BuildMine string string real real
  | BuildWall string string real real
  | SpawnZombie nat real string

fun applyOp :: "EngineOp \<Rightarrow> GameState \<Rightarrow> GameState option" where
  "applyOp (Update deltaTime) s = update deltaTime s"
| "applyOp (SpawnUnit rnd newId pid unitTypeKey) s = Some (spawnUnit rnd newId pid unitTypeKey s)"
| "applyOp (BuildHouse newId pid px py) s = Some (buildHouse newId pid px py s)"
| "applyOp (BuildMine newId pid px py) s = Some (buildMine newId pid px py s)"
| "applyOp (BuildWall newId pid px py) s = Some (buildWall newId pid px py s)"
| "applyOp (SpawnZombie pc rnd newId) s = Some (spawnZombie pc rnd newId s)"

fun applyOps :: "EngineOp list \<Rightarrow> GameState \<Rightarrow> GameState option" where
  "applyOps [] s = Some s"
| "applyOps (op # ops) s = (case applyOp op s of None \<Rightarrow> None | Some s' \<Rightarrow> applyOps ops s')"

fun issuedBy :: "EngineOp \<Rightarrow> string option" where
  "issuedBy (Update deltaTime) = None"
| "issuedBy (SpawnUnit rnd newId pid unitTypeKey) = Some pid"
| "issuedBy (BuildHouse newId pid px py) = Some pid"
| "issuedBy (BuildMine newId pid px py) = Some pid"
| "issuedBy (BuildWall newId pid px py) = Some pid"
| "issuedBy (SpawnZombie pc rnd newId) = None"

inductive reachable :: "GameState \<Rightarrow> bool" where
  initial: "createInitialState now pc lobbyPlayers = Some s \<Longrightarrow> reachable s"
| step: "reachable s \<Longrightarrow> applyOp op s = Some s' \<Longrightarrow> reachable s'"

section \<open>Invariant and termination measure of the search\<close>

text \<open>
  The facts the main loop of \<^verbatim>\<open>findPath\<close> maintains, used by the proofs below: scores
  are non-negative multiples of \<open>0.2\<close>; every scored tile but the start has a predecessor;
  a predecessor is one adjacency step away and scored lower by at least \<open>1\<close>; a tile gets
  a predecessor only after passing the bounds, terrain and blocking tests.
\<close>

definition validTile :: "tile \<Rightarrow> bool" where
  "validTile k = (inBounds (fst k) (snd k) \<and> isValidTerrain (of_int (fst k)) (of_int (snd k)))"

definition astarInv :: "(tile \<Rightarrow> bool) \<Rightarrow> tile \<Rightarrow> tile \<Rightarrow> AStar \<Rightarrow> bool" where
  "astarInv blk start goal s \<longleftrightarrow>
     gScore s start = Some 0 \<and> cameFrom s start = None \<and>
     (\<forall>k g. gScore s k = Some g \<longrightarrow>
        0 \<le> g \<and> (\<exists>m::nat. 5 * g = real m) \<and> (k = start \<or> cameFrom s k \<noteq> None)) \<and>
     (\<forall>k p. cameFrom s k = Some p \<longrightarrow>
        (fst k - fst p, snd k - snd p) \<in> set neighbors \<and> validTile k \<and> (k \<noteq> goal \<longrightarrow> \<not> blk k) \<and>
        (\<exists>gk gp. gScore s k = Some gk \<and> gScore s p = Some gp \<and> gp + 1 \<le> gk)) \<and>
     (\<forall>ent \<in> set (openSet s). gScore s (fst ent) \<noteq> None)"

definition relaxed :: "tile \<Rightarrow> tile \<Rightarrow> AStar \<Rightarrow> tile \<Rightarrow> real \<Rightarrow> AStar" where
  "relaxed goal current s nk t =
     s\<lparr>cameFrom := (cameFrom s)(nk \<mapsto> current), gScore := (gScore s)(nk \<mapsto> t),
       openSet := (if list_ex (\<lambda>ent. fst ent = nk) (openSet s) then openSet s
                   else openSet s @ [(nk, t + heuristic nk goal)])\<rparr>"

definition gridTiles :: "tile set" where
  "gridTiles = {0..<MAP_SIZE} \<times> {0..<MAP_SIZE}"

definition unseen :: "AStar \<Rightarrow> nat" where
  "unseen s = card {k \<in> gridTiles. gScore s k = None}"

definition gWeight :: "AStar \<Rightarrow> tile \<Rightarrow> nat" where
  "gWeight s k = (case gScore s k of None \<Rightarrow> 0 | Some g \<Rightarrow> nat \<lfloor>5 * g\<rfloor>)"

definition gSum :: "AStar \<Rightarrow> nat" where
  "gSum s = (\<Sum>k \<in> gridTiles. gWeight s k)"

definition astarMeasure :: "AStar \<Rightarrow> nat \<times> nat \<times> nat" where
  "astarMeasure s = (unseen s, gSum s, length (openSet s))"

definition astarRel :: "(AStar \<times> AStar) set" where
  "astarRel = inv_image (less_than <*lex*> less_than <*lex*> less_than) astarMeasure"

definition progress :: "AStar \<Rightarrow> AStar \<Rightarrow> bool" where
  "progress s s' \<longleftrightarrow> s' = s \<or> unseen s' < unseen s \<or> (unseen s' = unseen s \<and> gSum s' < gSum s)"

definition expand :: "(tile \<Rightarrow> bool) \<Rightarrow> tile \<Rightarrow> AStar \<Rightarrow> AStar" where
  "expand blk goal s =
     foldl (relax blk goal (fst (fst (popLowest (openSet s)))))
       (s\<lparr>openSet := snd (popLowest (openSet s))\<rparr>) neighbors"

definition goodPath :: "(tile \<Rightarrow> bool) \<Rightarrow> tile \<Rightarrow> tile \<Rightarrow> Vector2 list \<Rightarrow> bool" where
  "goodPath blk start goal p \<longleftrightarrow>
     (\<exists>ts. p = map tileCenter (start # ts) \<and> adjacentPath (start # ts) \<and> last (start # ts) = goal
        \<and> (\<forall>t \<in> set ts. validTile t \<and> (t \<noteq> goal \<longrightarrow> \<not> blk t)))"

section \<open>Predicates of the statements\<close>

text \<open>
  A wall is a candidate of \<^verbatim>\<open>findBlockingWall\<close> when it passes every test of the loop
  body: live wall, within the search radius, strictly nearer than the target, and near
  enough to the segment. \<open>bestSoFar\<close> is the loop invariant of the scan.
\<close>

definition blockingCandidate :: "Entity \<Rightarrow> Entity \<Rightarrow> Entity \<Rightarrow> bool" where
  "blockingCandidate source target wall \<longleftrightarrow>
     etype wall = WALL \<and> hp wall > 0
     \<and> getDistance source wall \<le> WALL_TARGET_MAX_DISTANCE
     \<and> getDistance source wall < getDistance source target
     \<and> distancePointToSegment (x wall) (y wall) (x source) (y source) (x target) (y target)
           \<le> wallRadiusOf wall + WALL_BLOCK_TOLERANCE"

definition bestSoFar :: "Entity \<Rightarrow> Entity \<Rightarrow> Entity list \<Rightarrow> (nat \<times> real) option \<Rightarrow> bool" where
  "bestSoFar source target pre best \<longleftrightarrow>
     (case best of
        None \<Rightarrow> (\<forall>j < length pre. \<not> blockingCandidate source target (pre ! j))
      | Some (b, d) \<Rightarrow> b < length pre \<and> blockingCandidate source target (pre ! b)
            \<and> d = getDistance source (pre ! b)
            \<and> (\<forall>j < length pre. blockingCandidate source target (pre ! j) \<longrightarrow> d \<le> getDistance source (pre ! j)))"

text \<open>
  What the per-entity loop leaves alone: the array keeps its length, every object keeps
  its type, id and owner, and an object that is neither a unit nor a zombie keeps its
  position.
\<close>

definition immobile :: "Entity \<Rightarrow> bool" where
  "immobile e \<longleftrightarrow> etype e \<noteq> UNIT \<and> etype e \<noteq> ZOMBIE"

definition sameFrame :: "Entity list \<Rightarrow> Entity list \<Rightarrow> bool" where
  "sameFrame es es' \<longleftrightarrow>
     length es' = length es \<and>
     (\<forall>j < length es. etype (es' ! j) = etype (es ! j) \<and> entId (es' ! j) = entId (es ! j)
        \<and> ownerId (es' ! j) = ownerId (es ! j)
        \<and> (immobile (es ! j) \<longrightarrow> x (es' ! j) = x (es ! j) \<and> y (es' ! j) = y (es ! j)))"

definition keepsIdentity :: "(Entity \<Rightarrow> Entity) \<Rightarrow> bool" where
  "keepsIdentity f \<longleftrightarrow>
     (\<forall>e. etype (f e) = etype e \<and> entId (f e) = entId e \<and> ownerId (f e) = ownerId e)"

definition keepsPosition :: "(Entity \<Rightarrow> Entity) \<Rightarrow> bool" where
  "keepsPosition f \<longleftrightarrow> (\<forall>e. x (f e) = x e \<and> y (f e) = y e)"

text \<open>
  Units of cost along a tile sequence: \<open>ua\<close> for an orthogonal step, \<open>ub\<close> for a diagonal
  one. A rounding that moves sums onto a coarse grid, used as an example.
\<close>

fun unitsAlong :: "nat \<Rightarrow> nat \<Rightarrow> tile list \<Rightarrow> nat" where
  "unitsAlong ua ub (a # b # rest) =
     (if fst b - fst a = 0 \<or> snd b - snd a = 0 then ua else ub) + unitsAlong ua ub (b # rest)"
| "unitsAlong ua ub _ = 0"

definition roundDownTo1024 :: "real \<Rightarrow> real" where
  "roundDownTo1024 v = of_int \<lfloor>v * 1024\<rfloor> / 1024"

text \<open>A removed zombie, and one whose bounty goes to player \<open>p\<close>.\<close>

definition removedZombie :: "Entity \<Rightarrow> bool" where
  "removedZombie e \<longleftrightarrow> hp e \<le> 0 \<and> etype e = ZOMBIE"

definition creditedTo :: "string \<Rightarrow> Entity \<Rightarrow> bool" where
  "creditedTo p e \<longleftrightarrow> hp e \<le> 0 \<and> etype e = ZOMBIE \<and> lastAttackerId e = Some p \<and> p \<noteq> []"

text \<open>The game is undecided with no winner, or over with exactly one of the two winners.\<close>

definition decided :: "GameState \<Rightarrow> bool" where
  "decided s \<longleftrightarrow> (\<not> gameOver s \<and> winner s = None)
     \<or> (gameOver s \<and> (winner s = Some ''ZOMBIES'' \<or> winner s = Some ''PLAYERS''))"

section \<open>Example states\<close>

definition examplePlayer :: PlayerState where
  "examplePlayer = \<lparr>playerId = ''p1'', name = ''Player 1'', gold = 100, currentPop = 0,
     maxPop = 5, basePosition = \<lparr>x = 10, y = 54\<rparr>, color = ''#3b82f6'', defeated = False\<rparr>"

definition exampleSecondPlayer :: PlayerState where
  "exampleSecondPlayer = \<lparr>playerId = ''p2'', name = ''Player 2'', gold = 100, currentPop = 0,
     maxPop = 5, basePosition = \<lparr>x = 20, y = 44\<rparr>, color = ''#ef4444'', defeated = False\<rparr>"

definition exampleSession :: GameState where
  "exampleSession =
     \<lparr>players = [''p1'' \<mapsto> examplePlayer],
      entities = [mkEntity ''base_p1'' BASE 10 54 1000 1000 (15 / 10) ''p1'',
                  mkEntity ''enemy_base'' ENEMY_BASE 54 10 4000 4000 2 ''enemy''],
      lastTick = 0, gameOver = False, winner = None, waveNumber = 1, playerCount = Some 1\<rparr>"

definition exampleFinished :: GameState where
  "exampleFinished =
     \<lparr>players = [''p1'' \<mapsto> examplePlayer\<lparr>defeated := True\<rparr>],
      entities = [mkEntity ''enemy_base'' ENEMY_BASE 54 10 4000 4000 2 ''enemy''],
      lastTick = 0, gameOver = True, winner = Some ''ZOMBIES'', waveNumber = 3,
      playerCount = Some 1\<rparr>"

definition exampleDeadZombie :: Entity where
  "exampleDeadZombie =
     (mkEntity ''z1'' ZOMBIE 50 12 0 35 (4 / 10) ''enemy'')\<lparr>lastAttackerId := Some ''p1''\<rparr>"

definition exampleWall :: "real \<Rightarrow> Entity" where
  "exampleWall r = mkEntity ''w1'' WALL 0 1 200 200 r ''p1''"

definition exampleZombie :: Entity where
  "exampleZombie = mkEntity ''z1'' ZOMBIE 0 0 35 35 (4 / 10) ''enemy''"

definition exampleTarget :: Entity where
  "exampleTarget = mkEntity ''base_p1'' BASE 3 0 1000 1000 (15 / 10) ''p1''"

section \<open>Geometry and terrain facts\<close>

lemma getDistance_less_iff:
  "0 < r \<Longrightarrow> getDistance a b < r \<longleftrightarrow> (x a - x b)\<^sup>2 + (y a - y b)\<^sup>2 < r\<^sup>2"
  unfolding getDistance_def
  by (metis real_sqrt_less_iff real_sqrt_abs abs_of_pos)

text \<open>
  The terrain oracle accepts every in-bounds point closer than 8 to one of the three
  anchors it knows: the first two player bases and the enemy base.
\<close>

lemma isValidTerrain_near_known_anchor:
  assumes "0 \<le> px" "px < 64" "0 \<le> py" "py < 64"
    and "getDistance \<lparr>x = px, y = py\<rparr> (BASE_POSITIONS ! 0) < 8
         \<or> getDistance \<lparr>x = px, y = py\<rparr> (BASE_POSITIONS ! 1) < 8
         \<or> getDistance \<lparr>x = px, y = py\<rparr> enemyBasePos < 8"
  shows "isValidTerrain px py"
  using assms
  by (auto simp: isValidTerrain_def MAP_SIZE_def BASE_POSITIONS_def enemyBasePos_def Let_def)

section \<open>Heuristic and cost model\<close>

lemma stepCost_exact: "stepCost n = stepCostOf (14 / 10) n"
  by (simp add: stepCost_def stepCostOf_def)

lemma unitsAlong_bound: "ua \<le> ub \<Longrightarrow> unitsAlong ua ub p \<le> ub * length p"
  by (induction p rule: induct_list012) auto

lemma heuristic_units_step:
  assumes "(fst b - fst a, snd b - snd a) \<in> set neighbors" "ub \<le> 2 * ua"
  shows "real ub * heuristic a c
      \<le> real ub * heuristic b c
        + 2 * real (if fst b - fst a = 0 \<or> snd b - snd a = 0 then ua else ub)"
proof -
  define dx where "dx = fst b - fst a"
  define dy where "dy = snd b - snd a"
  have fb: "real_of_int (fst b) = real_of_int (fst a) + real_of_int dx"
    and sb: "real_of_int (snd b) = real_of_int (snd a) + real_of_int dy"
    by (simp_all add: dx_def dy_def)
  from assms(1) have n: "(dx, dy) \<in> set neighbors" by (simp add: dx_def dy_def)
  have h: "heuristic a c \<le> heuristic b c + (if dx = 0 \<or> dy = 0 then 1 else 2)"
    using n unfolding heuristic_def fb sb
    by (auto simp: neighbors_def abs_if split: if_splits)
  have u: "real ub \<le> 2 * real ua" using assms(2) by linarith
  show ?thesis
  proof (cases "dx = 0 \<or> dy = 0")
    case True
    then have "heuristic a c \<le> heuristic b c + 1" using h by simp
    then have "real ub * heuristic a c \<le> real ub * (heuristic b c + 1)"
      by (rule mult_left_mono) simp
    then show ?thesis using True u unfolding dx_def[symmetric] dy_def[symmetric]
      by (simp add: algebra_simps)
  next
    case False
    then have "heuristic a c \<le> heuristic b c + 2" using h by simp
    then have "real ub * heuristic a c \<le> real ub * (heuristic b c + 2)"
      by (rule mult_left_mono) simp
    then show ?thesis using False unfolding dx_def[symmetric] dy_def[symmetric]
      by (simp add: algebra_simps)
  qed
qed

lemma heuristic_units:
  "adjacentPath p \<Longrightarrow> p \<noteq> [] \<Longrightarrow> ub \<le> 2 * ua \<Longrightarrow>
   real ub * heuristic (hd p) (last p) \<le> 2 * real (unitsAlong ua ub p)"
proof (induction p rule: induct_list012)
  case 1
  then show ?case by simp
next
  case (2 a)
  then show ?case by (simp add: heuristic_def)
next
  case (3 a b rest)
  then show ?case using heuristic_units_step[of b a ub ua "last (b # rest)"] by simp
qed

lemma scoreAlong_units:
  assumes "mono fl" "0 \<le> u" "1 = real ua * u" "real ub * u \<le> diag"
  shows "real m * u \<le> g \<Longrightarrow>
    \<forall>k \<le> m + unitsAlong ua ub p. fl (real k * u) = real k * u \<Longrightarrow>
    real (m + unitsAlong ua ub p) * u \<le> scoreAlong fl diag g p"
proof (induction p arbitrary: m g rule: induct_list012)
  case 1
  then show ?case by simp
next
  case (2 a)
  then show ?case by simp
next
  case (3 a b rest)
  define w where "w = (if fst b - fst a = 0 \<or> snd b - snd a = 0 then ua else ub)"
  define c where "c = stepCostOf diag (fst b - fst a, snd b - snd a)"
  have un: "unitsAlong ua ub (a # b # rest) = w + unitsAlong ua ub (b # rest)"
    by (simp add: w_def)
  have wc: "real w * u \<le> c" using assms(3,4) by (simp add: stepCostOf_def w_def c_def)
  have "real (m + w) * u \<le> g + c" using 3(3) wc by (simp add: algebra_simps)
  then have "fl (real (m + w) * u) \<le> fl (g + c)" by (rule monoD[OF assms(1)])
  moreover have "fl (real (m + w) * u) = real (m + w) * u"
  proof -
    have "m + w \<le> m + unitsAlong ua ub (a # b # rest)" unfolding un by simp
    with 3(4) show ?thesis by blast
  qed
  ultimately have g': "real (m + w) * u \<le> fl (g + c)" by simp
  have ex: "\<forall>k \<le> (m + w) + unitsAlong ua ub (b # rest). fl (real k * u) = real k * u"
    using 3(4) unfolding un by (simp add: add.assoc)
  have "real ((m + w) + unitsAlong ua ub (b # rest)) * u \<le> scoreAlong fl diag (fl (g + c)) (b # rest)"
    by (rule 3(2)[OF g' ex])
  then show ?case unfolding un c_def by (simp add: add.assoc)
qed

lemma threeDiagonals:
  "scoreAlong (\<lambda>v. v) (14 / 10) 0 [(0, 0), (1, 1), (2, 2), (3, 3)] = 42 / 10"
  "heuristic (0, 0) (3, 3) = 6"
  "adjacentPath [(0, 0), (1, 1), (2, 2), (3, 3)]"
  by (simp_all add: stepCostOf_def heuristic_def neighbors_def)

lemma roundDownTo1024_mono: "mono roundDownTo1024"
  by (auto simp: mono_def roundDownTo1024_def divide_right_mono floor_mono)

lemma roundDownTo1024_exact: "roundDownTo1024 (real k * (1 / 1024)) = real k * (1 / 1024)"
  by (simp add: roundDownTo1024_def)

text \<open>
  C2, as stated, fails: one diagonal step from \<open>(0,0)\<close> to \<open>(1,1)\<close> is charged \<open>1.4\<close> (in
  exact arithmetic and as a double alike), less than the Manhattan distance \<open>2\<close> between
  its ends.
\<close>

theorem heuristic_not_admissible:
  "adjacentPath [(0, 0), (1, 1)]
   \<and> scoreAlong (\<lambda>v. v) (14 / 10) 0 [(0, 0), (1, 1)] < heuristic (0, 0) (1, 1)
   \<and> scoreAlong (\<lambda>v. v) doubleOnePointFour 0 [(0, 0), (1, 1)] < heuristic (0, 0) (1, 1)"
  by (simp add: neighbors_def heuristic_def stepCostOf_def doubleOnePointFour_def)

text \<open>
  C2, amended: the Manhattan distance between the ends of a path is at most \<open>2/d\<close> times
  the score accumulated along it, for every \<open>d\<close> between \<open>1\<close> and \<open>2\<close>, not above the value
  of the literal \<open>1.4\<close>, such that \<open>1\<close> and \<open>d\<close> are multiples (\<open>ua\<close> and \<open>ub\<close> times) of a unit
  \<open>u\<close> on whose multiples the rounded addition is exact, the rounding being monotone. In
  exact arithmetic \<open>d = 1.4\<close> (\<open>u = 1/5\<close>) gives the factor \<open>10/7\<close>. IEEE double addition is
  monotone and exact on the multiples of \<open>1/1024\<close> in range, and \<open>1433/1024\<close> lies below
  the double \<open>1.4\<close>, which gives the factor \<open>2048/1433\<close>; with \<open>u = 1\<close> the factor is \<open>2\<close>.
  Nothing is assumed of the rounding beyond monotonicity and exactness on that grid, so the
  bound holds of the scores the program computes, not only of exact sums.
\<close>

theorem heuristic_bounded_by_score:
  assumes "adjacentPath p" "p \<noteq> []"
    and "mono fl" "0 \<le> u" "1 = real ua * u" "real ub * u \<le> diag" "ua \<le> ub" "ub \<le> 2 * ua"
    and "\<forall>k \<le> ub * length p. fl (real k * u) = real k * u"
  shows "(real ub * u) * heuristic (hd p) (last p) \<le> 2 * scoreAlong fl diag 0 p"
proof -
  have b: "unitsAlong ua ub p \<le> ub * length p" by (rule unitsAlong_bound[OF assms(7)])
  have ex: "\<forall>k \<le> 0 + unitsAlong ua ub p. fl (real k * u) = real k * u"
    using assms(9) b by auto
  have s: "real (0 + unitsAlong ua ub p) * u \<le> scoreAlong fl diag 0 p"
    by (rule scoreAlong_units[OF assms(3-6) _ ex]) simp
  have "real ub * heuristic (hd p) (last p) \<le> 2 * real (unitsAlong ua ub p)"
    by (rule heuristic_units[OF assms(1,2,8)])
  then have "(real ub * heuristic (hd p) (last p)) * u \<le> (2 * real (unitsAlong ua ub p)) * u"
    by (rule mult_right_mono) (rule assms(4))
  then show ?thesis using s by (simp add: algebra_simps)
qed

theorem heuristic_bounded_by_score_witness:
  "adjacentPath [(0, 0), (1, 1), (2, 2), (3, 3)]
   \<and> mono (\<lambda>v :: real. v) \<and> (1 :: real) = real 5 * (1 / 5) \<and> real 7 * (1 / 5) \<le> (14 / 10 :: real)
   \<and> (real 7 * (1 / 5)) * heuristic (0, 0) (3, 3)
        \<le> 2 * scoreAlong (\<lambda>v. v) (14 / 10) 0 [(0, 0), (1, 1), (2, 2), (3, 3)]
   \<and> scoreAlong (\<lambda>v. v) (14 / 10) 0 [(0, 0), (1, 1), (2, 2), (3, 3)] = 42 / 10
   \<and> heuristic (0, 0) (3, 3) = 6
   \<and> mono roundDownTo1024
   \<and> (\<forall>k :: nat. roundDownTo1024 (real k * (1 / 1024)) = real k * (1 / 1024))
   \<and> (1 :: real) = real 1024 * (1 / 1024) \<and> real 1433 * (1 / 1024) \<le> doubleOnePointFour
   \<and> (real 1433 * (1 / 1024)) * heuristic (0, 0) (3, 3)
        \<le> 2 * scoreAlong roundDownTo1024 doubleOnePointFour 0 [(0, 0), (1, 1), (2, 2), (3, 3)]"
proof -
  have d: "real 1433 * (1 / 1024) \<le> doubleOnePointFour"
    by (simp add: doubleOnePointFour_def)
  have ex: "\<forall>k \<le> 1433 * length [(0, 0), (1, 1), (2, 2), (3, 3 :: int)].
      roundDownTo1024 (real k * (1 / 1024)) = real k * (1 / 1024)"
    using roundDownTo1024_exact by blast
  have a: "(real 1433 * (1 / 1024)) * heuristic (hd [(0, 0), (1, 1), (2, 2), (3, 3)])
                (last [(0, 0), (1, 1), (2, 2), (3, 3)])
        \<le> 2 * scoreAlong roundDownTo1024 doubleOnePointFour 0 [(0, 0), (1, 1), (2, 2), (3, 3)]"
    by (rule heuristic_bounded_by_score[of _ _ "1 / 1024" 1024 1433, OF threeDiagonals(3) _
          roundDownTo1024_mono _ _ d _ _ ex]) simp_all
  show ?thesis
    using heuristic_bounded_by_score [of "[(0, 0), (1, 1), (2, 2), (3, 3)]" "\<lambda>v. v" "1 / 5" 5 7 "14 / 10"]
      threeDiagonals a d roundDownTo1024_mono roundDownTo1024_exact
    by (simp add: mono_def)
qed

section \<open>Safe zones of the terrain oracle\<close>

text \<open>
  C7 at the failing input: in a session of three players the third base is anchored at
  \<open>(8, 44)\<close>; the in-bounds tile \<open>(2, 40)\<close> is closer than 8 to that anchor, and the
  terrain oracle rejects it.
\<close>

theorem isValidTerrain_rejects_near_third_base:
  "map_option (\<lambda>s. map_option basePosition (players s ''p3'')) (createInitialState 0 3 [])
     = Some (Some \<lparr>x = 8, y = 44\<rparr>)
   \<and> getDistance \<lparr>x = 2, y = 40\<rparr> \<lparr>x = 8, y = 44\<rparr> < 8
   \<and> inBounds 2 40
   \<and> \<not> isValidTerrain 2 40"
proof -
  have s: "sin (3 / 10 :: real) \<le> 3 / 10" using sin_x_le_x[of "3 / 10 :: real"] by simp
  have t: "\<not> isValidTerrain 2 40"
    unfolding isValidTerrain_def Let_def MAP_SIZE_def
    apply (simp add: getDistance_less_iff)
    using s cos_le_one[of "6 :: real"] by linarith
  have p: "map_option (\<lambda>s. map_option basePosition (players s ''p3'')) (createInitialState 0 3 [])
     = Some (Some \<lparr>x = 8, y = 44\<rparr>)"
  proof -
    have u: "[0..<3] = [0, 1, 2 :: nat]" by code_simp
    show ?thesis
      by (simp add: createInitialState_def initPlayer_def BASE_POSITIONS_def u Let_def)
  qed
  show ?thesis using t p by (simp add: getDistance_less_iff inBounds_def MAP_SIZE_def)
qed

section \<open>The search loop: invariant, termination, result\<close>

lemma astarInv_start:
  "astarInv blk start goal s \<Longrightarrow> gScore s start = Some 0 \<and> cameFrom s start = None"
  unfolding astarInv_def by blast

lemma astarInv_g:
  "astarInv blk start goal s \<Longrightarrow> gScore s k = Some g \<Longrightarrow>
     0 \<le> g \<and> (\<exists>m::nat. 5 * g = real m) \<and> (k = start \<or> cameFrom s k \<noteq> None)"
  unfolding astarInv_def by blast

lemma astarInv_cf:
  "astarInv blk start goal s \<Longrightarrow> cameFrom s k = Some p \<Longrightarrow>
     (fst k - fst p, snd k - snd p) \<in> set neighbors \<and> validTile k \<and> (k \<noteq> goal \<longrightarrow> \<not> blk k) \<and>
     (\<exists>gk gp. gScore s k = Some gk \<and> gScore s p = Some gp \<and> gp + 1 \<le> gk)"
  unfolding astarInv_def by blast

lemma astarInv_open:
  "astarInv blk start goal s \<Longrightarrow> ent \<in> set (openSet s) \<Longrightarrow> gScore s (fst ent) \<noteq> None"
  unfolding astarInv_def by blast

lemma stepCost_ge1: "1 \<le> stepCost n"
  by (simp add: stepCost_def)

lemma stepCost_nat: "\<exists>m::nat. 5 * stepCost n = real m"
proof (cases "fst n = 0 \<or> snd n = 0")
  case True
  then have "5 * stepCost n = real 5" by (simp add: stepCost_def)
  then show ?thesis by blast
next
  case False
  then have "5 * stepCost n = real 7" by (simp add: stepCost_def)
  then show ?thesis by blast
qed

lemma astarInv_initial: "astarInv blk start goal (initialAStar start goal)"
  by (auto simp: astarInv_def initialAStar_def)

lemma relax_cases:
  "relax blk goal current s n = s \<or>
   (\<exists>gc. gScore s current = Some gc \<and> validTile (fst current + fst n, snd current + snd n)
      \<and> ((fst current + fst n, snd current + snd n) \<noteq> goal
           \<longrightarrow> \<not> blk (fst current + fst n, snd current + snd n))
      \<and> (case gScore s (fst current + fst n, snd current + snd n) of
            None \<Rightarrow> True | Some prevG \<Rightarrow> gc + stepCost n < prevG)
      \<and> relax blk goal current s n
          = relaxed goal current s (fst current + fst n, snd current + snd n) (gc + stepCost n))"
  by (simp add: relax_def relaxed_def validTile_def Let_def split: option.splits)

lemma neighbor_nonzero: "n \<in> set neighbors \<Longrightarrow> (fst c + fst n, snd c + snd n) \<noteq> c"
  by (cases c) (auto simp: neighbors_def)

lemma relax_inv:
  assumes inv: "astarInv blk start goal s" and n: "n \<in> set neighbors"
  shows "astarInv blk start goal (relax blk goal current s n)"
proof -
  define nk where "nk = (fst current + fst n, snd current + snd n)"
  consider (same) "relax blk goal current s n = s"
    | (upd) gc where "nk = (fst current + fst n, snd current + snd n)"
      "gScore s current = Some gc" "validTile nk" "nk \<noteq> goal \<longrightarrow> \<not> blk nk"
      "case gScore s nk of None \<Rightarrow> True | Some prevG \<Rightarrow> gc + stepCost n < prevG"
      "relax blk goal current s n = relaxed goal current s nk (gc + stepCost n)"
    using relax_cases[of blk goal current s n] unfolding nk_def by blast
  then show ?thesis
  proof cases
  case same
  then show ?thesis using inv by simp
next
  case (upd gc)
  define t where "t = gc + stepCost n"
  have gc0: "0 \<le> gc" and gcn: "\<exists>m::nat. 5 * gc = real m"
    using astarInv_g[OF inv upd(2)] by blast+
  have t_ge: "gc + 1 \<le> t" using stepCost_ge1[of n] by (simp add: t_def)
  have tn: "\<exists>m::nat. 5 * t = real m"
  proof -
    from gcn obtain a :: nat where a: "5 * gc = real a" by blast
    from stepCost_nat[of n] obtain b :: nat where b: "5 * stepCost n = real b" by blast
    have "5 * t = real (a + b)" using a b by (simp add: t_def algebra_simps)
    then show ?thesis by blast
  qed
  have nk_cur: "nk \<noteq> current" using neighbor_nonzero[OF n, of current] upd(1) by simp
  have nk_start: "nk \<noteq> start"
  proof
    assume "nk = start"
    then have "gScore s nk = Some 0" using astarInv_start[OF inv] by simp
    with upd(5) have "gc + stepCost n < 0" by simp
    with gc0 stepCost_ge1[of n] show False by linarith
  qed
  have lt: "\<And>pg. gScore s nk = Some pg \<Longrightarrow> t < pg" using upd(5) by (simp add: t_def)
  have off: "(fst nk - fst current, snd nk - snd current) = n" using upd(1) by simp
  let ?s = "relaxed goal current s nk t"
  have g': "gScore ?s = (gScore s)(nk \<mapsto> t)" and c': "cameFrom ?s = (cameFrom s)(nk \<mapsto> current)"
    by (simp_all add: relaxed_def)
  have o': "set (openSet ?s) \<subseteq> set (openSet s) \<union> {(nk, t + heuristic nk goal)}"
    by (auto simp: relaxed_def)
  have 1: "gScore ?s start = Some 0" "cameFrom ?s start = None"
    using astarInv_start[OF inv] nk_start by (auto simp: g' c')
  have 2: "\<forall>k g. gScore ?s k = Some g \<longrightarrow>
        0 \<le> g \<and> (\<exists>m::nat. 5 * g = real m) \<and> (k = start \<or> cameFrom ?s k \<noteq> None)"
  proof (intro allI impI)
    fix k g assume a: "gScore ?s k = Some g"
    show "0 \<le> g \<and> (\<exists>m::nat. 5 * g = real m) \<and> (k = start \<or> cameFrom ?s k \<noteq> None)"
    proof (cases "k = nk")
      case True
      then have "g = t" using a by (simp add: g')
      then show ?thesis using True tn t_ge gc0 by (simp add: c')
    next
      case False
      then have "gScore s k = Some g" using a by (simp add: g')
      then show ?thesis using astarInv_g[OF inv, of k g] False unfolding c' by simp
    qed
  qed
  have 3: "\<forall>k p. cameFrom ?s k = Some p \<longrightarrow>
        (fst k - fst p, snd k - snd p) \<in> set neighbors \<and> validTile k \<and> (k \<noteq> goal \<longrightarrow> \<not> blk k) \<and>
        (\<exists>gk gp. gScore ?s k = Some gk \<and> gScore ?s p = Some gp \<and> gp + 1 \<le> gk)"
  proof (intro allI impI)
    fix k p assume a: "cameFrom ?s k = Some p"
    show "(fst k - fst p, snd k - snd p) \<in> set neighbors \<and> validTile k \<and> (k \<noteq> goal \<longrightarrow> \<not> blk k) \<and>
        (\<exists>gk gp. gScore ?s k = Some gk \<and> gScore ?s p = Some gp \<and> gp + 1 \<le> gk)"
    proof (cases "k = nk")
      case True
      then have p: "p = current" using a by (simp add: c')
      show ?thesis using True p off n upd(3,4) upd(2) nk_cur t_ge by (simp add: g')
    next
      case False
      then have old: "cameFrom s k = Some p" using a by (simp add: c')
      from astarInv_cf[OF inv old] obtain gk gp where
        o1: "(fst k - fst p, snd k - snd p) \<in> set neighbors" "validTile k" "k \<noteq> goal \<longrightarrow> \<not> blk k"
        and o2: "gScore s k = Some gk" "gScore s p = Some gp" "gp + 1 \<le> gk"
        by blast
      show ?thesis
      proof (cases "p = nk")
        case True
        then have "t < gp" using lt o2(2) by simp
        then show ?thesis using o1 o2 False True by (simp add: g')
      next
        case pf: False
        then show ?thesis using o1 o2 False by (simp add: g')
      qed
    qed
  qed
  have 4: "\<forall>ent \<in> set (openSet ?s). gScore ?s (fst ent) \<noteq> None"
    using astarInv_open[OF inv] o' unfolding g' by auto
  have "astarInv blk start goal ?s"
    unfolding astarInv_def using 1 2 3 4 by blast
  then show ?thesis using upd(6) by (simp add: t_def)
qed
qed

lemma foldl_relax_inv:
  "astarInv blk start goal s \<Longrightarrow> set ns \<subseteq> set neighbors \<Longrightarrow>
   astarInv blk start goal (foldl (relax blk goal current) s ns)"
  by (induction ns arbitrary: s) (auto intro: relax_inv)

lemma lowestIdx_bound: "idx < i \<Longrightarrow> lowestIdx bestF idx i rest < i + length rest"
proof (induction rest arbitrary: bestF idx i)
  case Nil
  then show ?case by simp
next
  case (Cons ent rest)
  have a: "lowestIdx (snd ent) i (Suc i) rest < Suc i + length rest"
    by (rule Cons.IH) simp
  have b: "lowestIdx bestF idx (Suc i) rest < Suc i + length rest"
    by (rule Cons.IH) (use Cons.prems in simp)
  show ?case using a b by simp
qed

lemma popLowest_idx:
  assumes "os \<noteq> []"
  shows "lowestIdx (snd (hd os)) 0 1 (tl os) < length os"
proof -
  have "lowestIdx (snd (hd os)) 0 1 (tl os) < 1 + length (tl os)"
    by (rule lowestIdx_bound) simp
  then show ?thesis using assms by (cases os) simp_all
qed

lemma popLowest_fst: "os \<noteq> [] \<Longrightarrow> fst (popLowest os) \<in> set os"
  using popLowest_idx[of os] by (simp add: popLowest_def Let_def)

lemma popLowest_snd: "set (snd (popLowest os)) \<subseteq> set os"
  by (auto simp: popLowest_def Let_def dest: in_set_takeD in_set_dropD)

lemma popLowest_length: "os \<noteq> [] \<Longrightarrow> length (snd (popLowest os)) < length os"
  using popLowest_idx[of os] by (simp add: popLowest_def Let_def)

lemma pop_inv:
  "astarInv blk start goal s \<Longrightarrow> astarInv blk start goal (s\<lparr>openSet := snd (popLowest (openSet s))\<rparr>)"
  using popLowest_snd[of "openSet s"] unfolding astarInv_def by auto

lemma adjacentPath_snoc:
  "adjacentPath ts \<Longrightarrow> ts \<noteq> [] \<Longrightarrow> (fst k - fst (last ts), snd k - snd (last ts)) \<in> set neighbors
    \<Longrightarrow> adjacentPath (ts @ [k])"
  by (induction ts rule: induct_list012) auto

lemma reconstruct_chain:
  assumes inv: "astarInv blk start goal s"
  shows "gScore s k = Some g \<Longrightarrow> g < real n \<Longrightarrow>
    \<exists>ts. reconstruct (cameFrom s) start (Some k) acc = Some (acc @ map tileCenter ts)
        \<and> adjacentPath (start # rev ts) \<and> last (start # rev ts) = k
        \<and> (\<forall>t \<in> set ts. validTile t \<and> (t \<noteq> goal \<longrightarrow> \<not> blk t))"
proof (induction n arbitrary: k g acc)
  case 0
  then show ?case using astarInv_g[OF inv, of k g] by simp
next
  case (Suc n)
  show ?case
  proof (cases "k = start")
    case True
    then have "reconstruct (cameFrom s) start (Some k) acc = Some (acc @ map tileCenter [])"
      by (subst reconstruct.simps) simp
    then show ?thesis using True by (intro exI[of _ "[]"]) simp
  next
    case False
    then obtain p where p: "cameFrom s k = Some p"
      using astarInv_g[OF inv Suc.prems(1)] by auto
    from astarInv_cf[OF inv p] obtain gk gp where
      o1: "(fst k - fst p, snd k - snd p) \<in> set neighbors" "validTile k" "k \<noteq> goal \<longrightarrow> \<not> blk k"
      and o2: "gScore s k = Some gk" "gScore s p = Some gp" "gp + 1 \<le> gk"
      by blast
    have "gp < real n" using o2 Suc.prems by simp
    from Suc.IH[OF o2(2) this, of "acc @ [tileCenter k]"] obtain ts where
      ts: "reconstruct (cameFrom s) start (Some p) (acc @ [tileCenter k])
             = Some ((acc @ [tileCenter k]) @ map tileCenter ts)"
        "adjacentPath (start # rev ts)" "last (start # rev ts) = p"
        "\<forall>t \<in> set ts. validTile t \<and> (t \<noteq> goal \<longrightarrow> \<not> blk t)"
      by blast
    have r: "reconstruct (cameFrom s) start (Some k) acc = Some (acc @ map tileCenter (k # ts))"
      using False p ts(1) by (subst reconstruct.simps) simp
    have a: "adjacentPath ((start # rev ts) @ [k])"
      by (rule adjacentPath_snoc) (use ts o1 in simp_all)
    show ?thesis
      using r a ts(4) o1 by (intro exI[of _ "k # ts"]) simp
  qed
qed

lemma wf_astarRel: "wf astarRel"
  unfolding astarRel_def by (intro wf_inv_image wf_lex_prod wf_less_than)

lemma finite_gridTiles: "finite gridTiles"
  by (simp add: gridTiles_def)

lemma validTile_grid: "validTile k \<Longrightarrow> k \<in> gridTiles"
  by (cases k) (simp add: validTile_def inBounds_def gridTiles_def)

lemma progress_refl: "progress s s"
  by (simp add: progress_def)

lemma progress_trans: "progress s s' \<Longrightarrow> progress s' s'' \<Longrightarrow> progress s s''"
  unfolding progress_def by auto

lemma relaxed_progress:
  assumes inv: "astarInv blk start goal s"
    and nk: "validTile nk"
    and tn: "\<exists>m::nat. 5 * t = real m"
    and lt: "case gScore s nk of None \<Rightarrow> True | Some prevG \<Rightarrow> t < prevG"
  shows "progress s (relaxed goal current s nk t)"
proof -
  let ?s = "relaxed goal current s nk t"
  have g': "gScore ?s = (gScore s)(nk \<mapsto> t)" by (simp add: relaxed_def)
  have ing: "nk \<in> gridTiles" using nk by (rule validTile_grid)
  show ?thesis
  proof (cases "gScore s nk")
    case None
    have e: "{k \<in> gridTiles. gScore ?s k = None} = {k \<in> gridTiles. gScore s k = None} - {nk}"
      unfolding g' by auto
    have m: "nk \<in> {k \<in> gridTiles. gScore s k = None}" using ing None by simp
    have f: "finite {k \<in> gridTiles. gScore s k = None}" using finite_gridTiles by simp
    have "card ({k \<in> gridTiles. gScore s k = None} - {nk}) < card {k \<in> gridTiles. gScore s k = None}"
      by (rule card_Diff1_less[OF f m])
    then have "unseen ?s < unseen s"
      unfolding unseen_def e .
    then show ?thesis by (simp add: progress_def)
  next
    case (Some pg)
    then have tpg: "t < pg" using lt by simp
    have "{k \<in> gridTiles. gScore ?s k = None} = {k \<in> gridTiles. gScore s k = None}"
      unfolding g' using Some by auto
    then have u: "unseen ?s = unseen s" by (simp add: unseen_def)
    from tn obtain m1 :: nat where m1: "5 * t = real m1" by blast
    from astarInv_g[OF inv Some] obtain m2 :: nat where m2: "5 * pg = real m2" by blast
    have "real m1 < real m2" using tpg m1 m2 by linarith
    then have w: "gWeight ?s nk < gWeight s nk"
      unfolding gWeight_def g' using Some m1 m2 by simp
    have same: "\<And>k. k \<in> gridTiles - {nk} \<Longrightarrow> gWeight ?s k = gWeight s k"
      unfolding gWeight_def g' by simp
    have "gSum ?s = gWeight ?s nk + (\<Sum>k \<in> gridTiles - {nk}. gWeight ?s k)"
      unfolding gSum_def by (rule sum.remove[OF finite_gridTiles ing])
    also have "\<dots> = gWeight ?s nk + (\<Sum>k \<in> gridTiles - {nk}. gWeight s k)"
      using sum.cong[OF refl same, of "gridTiles - {nk}" "\<lambda>k. k"] by simp
    also have "\<dots> < gWeight s nk + (\<Sum>k \<in> gridTiles - {nk}. gWeight s k)"
      using w by simp
    also have "\<dots> = gSum s"
      unfolding gSum_def by (rule sum.remove[OF finite_gridTiles ing, symmetric])
    finally show ?thesis using u by (simp add: progress_def)
  qed
qed

lemma relax_progress:
  assumes inv: "astarInv blk start goal s" and n: "n \<in> set neighbors"
  shows "progress s (relax blk goal current s n)"
proof -
  from relax_cases[of blk goal current s n]
  consider (same) "relax blk goal current s n = s"
    | (upd) gc where "gScore s current = Some gc"
        "validTile (fst current + fst n, snd current + snd n)"
        "case gScore s (fst current + fst n, snd current + snd n) of
            None \<Rightarrow> True | Some prevG \<Rightarrow> gc + stepCost n < prevG"
        "relax blk goal current s n
          = relaxed goal current s (fst current + fst n, snd current + snd n) (gc + stepCost n)"
    by blast
  then show ?thesis
  proof cases
    case same
    then show ?thesis by (simp add: progress_def)
  next
    case (upd gc)
    from astarInv_g[OF inv upd(1)] obtain a :: nat where a: "5 * gc = real a" by blast
    from stepCost_nat[of n] obtain b :: nat where b: "5 * stepCost n = real b" by blast
    have "5 * (gc + stepCost n) = real (a + b)" using a b by (simp add: algebra_simps)
    then have tn: "\<exists>m::nat. 5 * (gc + stepCost n) = real m" by blast
    show ?thesis
      unfolding upd(4) by (rule relaxed_progress[OF inv upd(2) tn upd(3)])
  qed
qed

lemma foldl_relax_progress:
  "astarInv blk start goal s \<Longrightarrow> set ns \<subseteq> set neighbors \<Longrightarrow>
   progress s (foldl (relax blk goal current) s ns)"
proof (induction ns arbitrary: s)
  case Nil
  then show ?case by (simp add: progress_refl)
next
  case (Cons n ns)
  have n: "n \<in> set neighbors" using Cons.prems by simp
  have i: "astarInv blk start goal (relax blk goal current s n)"
    by (rule relax_inv[OF Cons.prems(1) n])
  have "progress (relax blk goal current s n) (foldl (relax blk goal current) (relax blk goal current s n) ns)"
    by (rule Cons.IH[OF i]) (use Cons.prems in simp)
  with relax_progress[OF Cons.prems(1) n, of current] show ?case
    by (auto intro: progress_trans)
qed

lemma expand_inv: "astarInv blk start goal s \<Longrightarrow> astarInv blk start goal (expand blk goal s)"
  unfolding expand_def by (intro foldl_relax_inv pop_inv) simp_all

lemma expand_decreases:
  assumes inv: "astarInv blk start goal s" and ne: "openSet s \<noteq> []"
  shows "(expand blk goal s, s) \<in> astarRel"
proof -
  let ?s1 = "s\<lparr>openSet := snd (popLowest (openSet s))\<rparr>"
  have m: "unseen ?s1 = unseen s" "gSum ?s1 = gSum s"
    by (simp_all add: unseen_def gSum_def gWeight_def)
  have l: "length (openSet ?s1) < length (openSet s)"
    using popLowest_length[OF ne] by simp
  have "progress ?s1 (expand blk goal s)"
    unfolding expand_def by (rule foldl_relax_progress[OF pop_inv[OF inv]]) simp
  then show ?thesis
    using m l unfolding progress_def astarRel_def astarMeasure_def by auto
qed

lemma astarLoop_unfold:
  "astarLoop blk start goal s =
    (if openSet s = [] then Some None
     else if fst (fst (popLowest (openSet s))) = goal
       then do {
         p \<leftarrow> reconstruct (cameFrom s) start (Some goal) [];
         Some (Some (rev (p @ [tileCenter start])))
       }
       else astarLoop blk start goal (expand blk goal s))"
  by (subst astarLoop.simps) (simp add: Let_def expand_def)

lemma astarLoop_correct:
  "astarInv blk start goal s \<Longrightarrow>
   \<exists>r. astarLoop blk start goal s = Some r \<and> (\<forall>p. r = Some p \<longrightarrow> goodPath blk start goal p)"
  using wf_astarRel
proof (induction s rule: wf_induct_rule)
  case (less s)
  show ?case
  proof (cases "openSet s = []")
    case True
    then show ?thesis by (subst astarLoop_unfold) simp
  next
    case ne: False
    show ?thesis
    proof (cases "fst (fst (popLowest (openSet s))) = goal")
      case True
      have "fst (popLowest (openSet s)) \<in> set (openSet s)" by (rule popLowest_fst[OF ne])
      from astarInv_open[OF less.prems this] True obtain g where g: "gScore s goal = Some g"
        by auto
      have "g < real (Suc (nat \<lceil>g\<rceil>))" by linarith
      from reconstruct_chain[OF less.prems g this, of "[]"] obtain ts where
        ts: "reconstruct (cameFrom s) start (Some goal) [] = Some (map tileCenter ts)"
          "adjacentPath (start # rev ts)" "last (start # rev ts) = goal"
          "\<forall>t \<in> set ts. validTile t \<and> (t \<noteq> goal \<longrightarrow> \<not> blk t)"
        by auto
      have r: "astarLoop blk start goal s = Some (Some (map tileCenter (start # rev ts)))"
        using ne True ts(1) by (subst astarLoop_unfold) (simp add: rev_map)
      have "goodPath blk start goal (map tileCenter (start # rev ts))"
        unfolding goodPath_def using ts by (intro exI[of _ "rev ts"]) simp
      then show ?thesis using r by simp
    next
      case False
      have "astarLoop blk start goal s = astarLoop blk start goal (expand blk goal s)"
        using ne False by (subst astarLoop_unfold) simp
      moreover have "\<exists>r. astarLoop blk start goal (expand blk goal s) = Some r
                       \<and> (\<forall>p. r = Some p \<longrightarrow> goodPath blk start goal p)"
        by (rule less.IH[OF expand_decreases[OF less.prems ne] expand_inv[OF less.prems]])
      ultimately show ?thesis by simp
    qed
  qed
qed

lemma findPath_correct:
  "\<exists>r. findPath es startX startY goalX goalY ignoreId ignoreTypes blockedTiles = Some r
     \<and> (\<forall>p. r = Some p \<longrightarrow>
           goodPath (isTileBlocked es ignoreId ignoreTypes blockedTiles)
             (\<lfloor>startX\<rfloor>, \<lfloor>startY\<rfloor>) (\<lfloor>goalX\<rfloor>, \<lfloor>goalY\<rfloor>) p)"
  unfolding findPath_def Let_def by (rule astarLoop_correct[OF astarInv_initial])

lemma validTerrain_around_first_base:
  "isValidTerrain 11 54" "isValidTerrain 9 54" "isValidTerrain 10 55" "isValidTerrain 10 53"
  "isValidTerrain 11 55" "isValidTerrain 11 53" "isValidTerrain 9 55" "isValidTerrain 9 53"
  by (simp_all add: isValidTerrain_def MAP_SIZE_def Let_def getDistance_less_iff)

lemma findPath_example:
  "findPath [] (21 / 2) (109 / 2) (23 / 2) (109 / 2) None None (Some {(10, 54)})
     = Some (Some [\<lparr>x = 21 / 2, y = 109 / 2\<rparr>, \<lparr>x = 23 / 2, y = 109 / 2\<rparr>])"
proof -
  let ?blk = "isTileBlocked [] None None (Some {(10, 54)})"
  let ?s0 = "initialAStar (10, 54) (11, 54)"
  have fl: "\<lfloor>21 / 2 :: real\<rfloor> = 10" "\<lfloor>109 / 2 :: real\<rfloor> = 54" "\<lfloor>23 / 2 :: real\<rfloor> = 11"
    by simp_all
  have p0: "openSet ?s0 \<noteq> []" "fst (fst (popLowest (openSet ?s0))) \<noteq> (11, 54)"
    by (simp_all add: initialAStar_def popLowest_def)
  have e: "\<exists>os cf g. expand ?blk (11, 54) ?s0 = \<lparr>openSet = os, cameFrom = cf, gScore = g\<rparr>
      \<and> os \<noteq> [] \<and> fst (fst (popLowest os)) = (11, 54) \<and> cf (11, 54) = Some (10, 54)"
    by (simp add: expand_def neighbors_def relax_def initialAStar_def inBounds_def MAP_SIZE_def
        validTerrain_around_first_base isTileBlocked_def stepCost_def heuristic_def Let_def
        popLowest_def)
  then obtain os cf g where
    st: "expand ?blk (11, 54) ?s0 = \<lparr>openSet = os, cameFrom = cf, gScore = g\<rparr>"
    and os: "os \<noteq> []" "fst (fst (popLowest os)) = (11, 54)"
    and cf: "cf (11, 54) = Some (10, 54)"
    by blast
  have r: "reconstruct cf (10, 54) (Some (11, 54)) [] = Some [tileCenter (11, 54)]"
    by (subst reconstruct.simps, simp add: cf, subst reconstruct.simps, simp)
  have "astarLoop ?blk (10, 54) (11, 54) ?s0 = astarLoop ?blk (10, 54) (11, 54) (expand ?blk (11, 54) ?s0)"
    using p0 by (subst astarLoop_unfold) simp
  also have "\<dots> = Some (Some (rev ([tileCenter (11, 54)] @ [tileCenter (10, 54)])))"
    unfolding st using os r by (subst astarLoop_unfold) simp
  finally show ?thesis
    by (simp add: findPath_def fl tileCenter_def)
qed

section \<open>Pathfinder: termination and validity of the returned path\<close>

text \<open>
  C9: \<^verbatim>\<open>findPath\<close> returns on every input (a path or \<^verbatim>\<open>null\<close>): whatever the
  coordinates, the exclusion arguments, the entities and the blocked-tile set, the main
  loop and the reconstruction loop stop.
\<close>

theorem findPath_terminates:
  "\<exists>r. findPath es startX startY goalX goalY ignoreId ignoreTypes blockedTiles = Some r"
  using findPath_correct[of es startX startY goalX goalY ignoreId ignoreTypes blockedTiles]
  by blast

text \<open>
  C1, as stated, fails at the start tile, which the search never tests: from the tile
  \<open>(10, 54)\<close> to its neighbour \<open>(11, 54)\<close>, with \<open>(10, 54)\<close> itself in the blocked set,
  the path returned starts on the blocked tile, which is not the goal tile.
\<close>

theorem findPath_start_tile_not_checked:
  "findPath [] (21 / 2) (109 / 2) (23 / 2) (109 / 2) None None (Some {(10, 54)})
     = Some (Some [tileCenter (10, 54), tileCenter (11, 54)])
   \<and> (10, 54) \<in> {(10, 54) :: tile}
   \<and> isTileBlocked [] None None (Some {(10, 54)}) (10, 54)
   \<and> (10, 54) \<noteq> (\<lfloor>23 / 2 :: real\<rfloor>, \<lfloor>109 / 2 :: real\<rfloor>)"
  using findPath_example by (simp add: tileCenter_def isTileBlocked_def)

text \<open>
  C1, amended: a returned path is the list of centers of a non-empty tile sequence that
  starts at the start tile, ends at the goal tile and moves by one of the eight adjacency
  steps at a time; every tile after the first is in bounds and accepted by the terrain
  oracle, and, unless it is the goal tile, passes the blocking test (it is not in the
  supplied set or, without a set, not blocked by an entity). Nothing is promised about the
  start tile.
\<close>

theorem findPath_path_valid:
  assumes "findPath es startX startY goalX goalY ignoreId ignoreTypes blockedTiles = Some (Some p)"
  shows "\<exists>ts. p = map tileCenter ((\<lfloor>startX\<rfloor>, \<lfloor>startY\<rfloor>) # ts)
           \<and> adjacentPath ((\<lfloor>startX\<rfloor>, \<lfloor>startY\<rfloor>) # ts)
           \<and> last ((\<lfloor>startX\<rfloor>, \<lfloor>startY\<rfloor>) # ts) = (\<lfloor>goalX\<rfloor>, \<lfloor>goalY\<rfloor>)
           \<and> (\<forall>t \<in> set ts. inBounds (fst t) (snd t)
                  \<and> isValidTerrain (of_int (fst t)) (of_int (snd t))
                  \<and> (t \<noteq> (\<lfloor>goalX\<rfloor>, \<lfloor>goalY\<rfloor>)
                       \<longrightarrow> \<not> isTileBlocked es ignoreId ignoreTypes blockedTiles t))"
  using findPath_correct[of es startX startY goalX goalY ignoreId ignoreTypes blockedTiles] assms
  unfolding goodPath_def validTile_def by auto

theorem findPath_path_valid_witness:
  "findPath [] (21 / 2) (109 / 2) (23 / 2) (109 / 2) None None (Some {(10, 54)})
     = Some (Some [\<lparr>x = 21 / 2, y = 109 / 2\<rparr>, \<lparr>x = 23 / 2, y = 109 / 2\<rparr>])
   \<and> (\<exists>ts. [\<lparr>x = 21 / 2, y = 109 / 2\<rparr>, \<lparr>x = 23 / 2, y = 109 / 2\<rparr>]
               = map tileCenter ((10, 54) # ts)
           \<and> adjacentPath ((10, 54) # ts)
           \<and> last ((10, 54) # ts) = (11, 54)
           \<and> (\<forall>t \<in> set ts. inBounds (fst t) (snd t)
                  \<and> isValidTerrain (of_int (fst t)) (of_int (snd t))
                  \<and> (t \<noteq> (11, 54)
                       \<longrightarrow> \<not> isTileBlocked [] None None (Some {(10, 54)}) t)))"
  using findPath_path_valid[OF findPath_example] findPath_example by simp

section \<open>Blocking-wall heuristic\<close>

lemma bestSoFar_skip:
  assumes "bestSoFar source target pre best"
    and "\<not> blockingCandidate source target w
         \<or> (\<exists>b d. best = Some (b, d) \<and> d \<le> getDistance source w)"
  shows "bestSoFar source target (pre @ [w]) best"
  using assms unfolding bestSoFar_def
  by (auto simp: nth_append less_Suc_eq split: option.splits)

lemma bestSoFar_take:
  assumes "bestSoFar source target pre best"
    and "blockingCandidate source target w"
    and "case best of None \<Rightarrow> True | Some (b, d) \<Rightarrow> getDistance source w < d"
  shows "bestSoFar source target (pre @ [w]) (Some (length pre, getDistance source w))"
  using assms unfolding bestSoFar_def
  by (auto simp: nth_append less_Suc_eq split: option.splits)

lemma findBlockingWallLoop_spec:
  "bestSoFar source target pre best \<Longrightarrow>
   bestSoFar source target (pre @ rest)
     (map_option (\<lambda>b. (b, getDistance source ((pre @ rest) ! b)))
        (findBlockingWallLoop source target (length pre) best rest))"
proof (induction rest arbitrary: pre best)
  case Nil
  then show ?case by (cases best) (auto simp: bestSoFar_def)
next
  case (Cons w rest)
  let ?d = "getDistance source w"
  have app: "pre @ w # rest = (pre @ [w]) @ rest" by simp
  have len: "Suc (length pre) = length (pre @ [w])" by simp
  show ?case
  proof (cases "blockingCandidate source target w
                \<and> (case best of None \<Rightarrow> True | Some (b, d) \<Rightarrow> ?d < d)")
    case True
    then have step: "findBlockingWallLoop source target (length pre) best (w # rest)
        = findBlockingWallLoop source target (Suc (length pre)) (Some (length pre, ?d)) rest"
      by (auto simp: blockingCandidate_def Let_def split: option.splits)
    have "bestSoFar source target (pre @ [w]) (Some (length pre, ?d))"
      using bestSoFar_take[OF Cons.prems] True by simp
    from Cons.IH[OF this] show ?thesis unfolding step app len .
  next
    case False
    then have step: "findBlockingWallLoop source target (length pre) best (w # rest)
        = findBlockingWallLoop source target (Suc (length pre)) best rest"
      by (auto simp: blockingCandidate_def Let_def split: option.splits)
    have "bestSoFar source target (pre @ [w]) best"
      by (rule bestSoFar_skip[OF Cons.prems]) (use False in \<open>auto split: option.splits\<close>)
    from Cons.IH[OF this] show ?thesis unfolding step app len .
  qed
qed

lemma findBlockingWall_spec:
  "bestSoFar source target es
     (map_option (\<lambda>b. (b, getDistance source (es ! b))) (findBlockingWall es source target))"
proof (cases "filter (\<lambda>e. etype e = WALL \<and> hp e > 0) es = []")
  case True
  then have "\<forall>e \<in> set es. \<not> (etype e = WALL \<and> hp e > 0)"
    by (simp add: filter_empty_conv)
  then have "\<forall>j < length es. \<not> blockingCandidate source target (es ! j)"
    by (auto simp: blockingCandidate_def)
  then show ?thesis using True by (simp add: findBlockingWall_def bestSoFar_def)
next
  case False
  have "bestSoFar source target [] None" by (simp add: bestSoFar_def)
  from findBlockingWallLoop_spec[OF this, of es] show ?thesis
    using False by (simp add: findBlockingWall_def)
qed

lemma sqrt9: "sqrt 9 = 3"
  by (rule real_sqrt_unique) simp_all

lemma findBlockingWall_example:
  "r = 0 \<or> r = 8 / 10 \<Longrightarrow> findBlockingWall [exampleWall r] exampleZombie exampleTarget = Some 0"
  by (auto simp: findBlockingWall_def exampleWall_def exampleZombie_def exampleTarget_def mkEntity_def
       getDistance_def WALL_TARGET_MAX_DISTANCE_def distancePointToSegment_def Let_def
       wallRadiusOf_def WALL_BLOCK_TOLERANCE_def sqrt9)

text \<open>
  C8, as stated, fails for a wall whose \<^verbatim>\<open>radius\<close> is \<open>0\<close>: the code then takes \<open>0.8\<close>
  for the radius (\<^verbatim>\<open>wall.radius || 0.8\<close>). Such a wall at distance \<open>1\<close> from the segment is
  returned although \<open>1\<close> exceeds its radius plus the tolerance \<open>0.75\<close>.
\<close>

theorem findBlockingWall_zero_radius:
  "findBlockingWall [exampleWall 0] exampleZombie exampleTarget = Some 0
   \<and> radius (exampleWall 0) + WALL_BLOCK_TOLERANCE
        < distancePointToSegment (x (exampleWall 0)) (y (exampleWall 0))
            (x exampleZombie) (y exampleZombie) (x exampleTarget) (y exampleTarget)"
  using findBlockingWall_example[of 0]
  by (simp add: exampleWall_def exampleZombie_def exampleTarget_def mkEntity_def
       distancePointToSegment_def Let_def WALL_BLOCK_TOLERANCE_def)

text \<open>
  C8, amended: \<^verbatim>\<open>findBlockingWall\<close> returns a wall only if it is live, its distance to the
  segment from attacker to target is within its effective radius (its radius, or \<open>0.8\<close>
  when the radius is \<open>0\<close>) plus the blocking tolerance, it is strictly closer to the
  attacker than the target is, and it lies within the search radius; no candidate is nearer
  to the attacker than the wall returned; and if there is no candidate the result is none.
\<close>

theorem findBlockingWall_nearest_candidate:
  "(\<forall>w. findBlockingWall es source target = Some w \<longrightarrow>
      w < length es \<and> etype (es ! w) = WALL \<and> hp (es ! w) > 0
      \<and> distancePointToSegment (x (es ! w)) (y (es ! w)) (x source) (y source) (x target) (y target)
            \<le> wallRadiusOf (es ! w) + WALL_BLOCK_TOLERANCE
      \<and> getDistance source (es ! w) < getDistance source target
      \<and> getDistance source (es ! w) \<le> WALL_TARGET_MAX_DISTANCE
      \<and> (\<forall>j < length es. blockingCandidate source target (es ! j)
             \<longrightarrow> getDistance source (es ! w) \<le> getDistance source (es ! j)))
   \<and> (findBlockingWall es source target = None \<longrightarrow>
        (\<forall>j < length es. \<not> blockingCandidate source target (es ! j)))"
  using findBlockingWall_spec[of source target es]
  by (cases "findBlockingWall es source target") (auto simp: bestSoFar_def blockingCandidate_def)

theorem findBlockingWall_nearest_candidate_witness:
  "findBlockingWall [exampleWall (8 / 10)] exampleZombie exampleTarget = Some 0
   \<and> 0 < length [exampleWall (8 / 10)]
   \<and> etype ([exampleWall (8 / 10)] ! 0) = WALL \<and> hp ([exampleWall (8 / 10)] ! 0) > 0
   \<and> distancePointToSegment (x (exampleWall (8 / 10))) (y (exampleWall (8 / 10)))
          (x exampleZombie) (y exampleZombie) (x exampleTarget) (y exampleTarget)
        \<le> wallRadiusOf (exampleWall (8 / 10)) + WALL_BLOCK_TOLERANCE
   \<and> getDistance exampleZombie (exampleWall (8 / 10)) < getDistance exampleZombie exampleTarget
   \<and> getDistance exampleZombie (exampleWall (8 / 10)) \<le> WALL_TARGET_MAX_DISTANCE
   \<and> findBlockingWall [] exampleZombie exampleTarget = None"
  using findBlockingWall_nearest_candidate[of "[exampleWall (8 / 10)]" exampleZombie exampleTarget]
    findBlockingWall_nearest_candidate[of "[]" exampleZombie exampleTarget]
    findBlockingWall_example[of "8 / 10"]
  by (simp add: findBlockingWall_def)

section \<open>Spawning units\<close>

lemma exampleSession_initial: "createInitialState 0 1 [] = Some exampleSession"
  by (simp add: createInitialState_def initPlayer_def BASE_POSITIONS_def PLAYER_COLORS_def
      enemyBasePos_def exampleSession_def examplePlayer_def Let_def)

text \<open>
  C3: when the player exists, is not defeated, can pay the unit's cost and is below the
  population cap, \<^verbatim>\<open>spawnUnit\<close> takes exactly the cost from that player's gold, adds one
  to \<open>currentPop\<close> and appends exactly one new unit entity, owned by the player; nothing else
  of the state changes. In every other case the state is returned unchanged.
\<close>

theorem spawnUnit_effect:
  "(\<forall>pl. players s pid = Some pl \<and> \<not> defeated pl \<and> gold pl \<ge> u_cost (UNIT_TYPES ut)
         \<and> currentPop pl < maxPop pl \<longrightarrow>
      (\<exists>u. spawnUnit rnd newId pid ut s =
              s\<lparr>players := (players s)(pid \<mapsto> pl\<lparr>gold := gold pl - u_cost (UNIT_TYPES ut),
                                                  currentPop := currentPop pl + 1\<rparr>),
                entities := entities s @ [u]\<rparr>
           \<and> etype u = UNIT \<and> ownerId u = pid \<and> entId u = newId))
   \<and> (\<not> (\<exists>pl. players s pid = Some pl \<and> \<not> defeated pl \<and> gold pl \<ge> u_cost (UNIT_TYPES ut)
         \<and> currentPop pl < maxPop pl) \<longrightarrow> spawnUnit rnd newId pid ut s = s)"
  by (auto simp: spawnUnit_def Let_def mkEntity_def split: option.splits)

theorem spawnUnit_effect_witness:
  "players exampleSession ''p1'' = Some examplePlayer \<and> \<not> defeated examplePlayer
   \<and> gold examplePlayer \<ge> u_cost (UNIT_TYPES SOLDIER)
   \<and> currentPop examplePlayer < maxPop examplePlayer
   \<and> (\<exists>u. spawnUnit 0 ''u1'' ''p1'' SOLDIER exampleSession =
              exampleSession\<lparr>players := (players exampleSession)
                                (''p1'' \<mapsto> examplePlayer\<lparr>gold := 80, currentPop := 1\<rparr>),
                entities := entities exampleSession @ [u]\<rparr>
            \<and> etype u = UNIT \<and> ownerId u = ''p1'' \<and> entId u = ''u1'')
   \<and> players exampleSession ''p2'' = None
   \<and> spawnUnit 0 ''u1'' ''p2'' SOLDIER exampleSession = exampleSession"
  using spawnUnit_effect [of exampleSession "''p1''" SOLDIER 0 "''u1''"]
        spawnUnit_effect [of exampleSession "''p2''" SOLDIER 0 "''u1''"]
  by (simp add: exampleSession_def examplePlayer_def)

section \<open>The per-entity loop: it returns, and what it leaves alone\<close>

lemma findPath_total:
  "\<exists>r. findPath es startX startY goalX goalY ignoreId ignoreTypes blockedTiles = Some r"
  using findPath_correct[of es startX startY goalX goalY ignoreId ignoreTypes blockedTiles]
  by blast

lemma sameFrame_refl: "sameFrame es es"
  by (simp add: sameFrame_def)

lemma sameFrame_trans: "sameFrame a b \<Longrightarrow> sameFrame b c \<Longrightarrow> sameFrame a c"
  unfolding sameFrame_def immobile_def by auto

lemma sameFrame_length: "sameFrame a b \<Longrightarrow> length b = length a"
  by (simp add: sameFrame_def)

lemma length_upd: "length (upd i f es) = length es"
  by (simp add: upd_def)

lemma nth_upd: "j < length es \<Longrightarrow> upd i f es ! j = (if i = j then f (es ! j) else es ! j)"
  by (simp add: upd_def nth_list_update)

lemma upd_sameFrame:
  "keepsIdentity f \<Longrightarrow> keepsPosition f \<Longrightarrow> sameFrame es (upd i f es)"
  unfolding sameFrame_def keepsIdentity_def keepsPosition_def
  by (simp add: nth_upd length_upd)

lemma upd_sameFrame_animate:
  "keepsIdentity f \<Longrightarrow> \<not> immobile (es ! i) \<Longrightarrow> sameFrame es (upd i f es)"
  unfolding sameFrame_def keepsIdentity_def
  by (auto simp: nth_upd length_upd)

lemma tickAttackCooldown_keeps:
  "keepsIdentity (tickAttackCooldown dt)" "keepsPosition (tickAttackCooldown dt)"
  by (auto simp: keepsIdentity_def keepsPosition_def tickAttackCooldown_def split: option.splits)

lemma onBlocked_sameFrame: "sameFrame es (onBlocked i es)"
  unfolding onBlocked_def Let_def
  by (auto split: option.splits
      intro!: sameFrame_trans[OF upd_sameFrame upd_sameFrame] upd_sameFrame
      simp: keepsIdentity_def keepsPosition_def)

lemma moveTo_sameFrame:
  "\<not> immobile (es ! i) \<Longrightarrow> sameFrame es (moveTo i newX newY dx dy len es)"
  unfolding moveTo_def
  by (auto intro!: upd_sameFrame_animate onBlocked_sameFrame simp: keepsIdentity_def)

lemma attack_sameFrame: "sameFrame es (attack i target es)"
  unfolding attack_def Let_def
  by (auto intro!: sameFrame_trans[OF upd_sameFrame sameFrame_trans[OF upd_sameFrame upd_sameFrame]]
        upd_sameFrame
      simp: keepsIdentity_def keepsPosition_def)

lemma sameFrame_immobile:
  "sameFrame a b \<Longrightarrow> i < length a \<Longrightarrow> immobile (b ! i) = immobile (a ! i)"
  by (simp add: sameFrame_def immobile_def)

lemma followPath_sameFrame:
  assumes "\<not> immobile (es ! i)"
  shows "sameFrame es (followPath dt i waypoint es)"
  unfolding followPath_def Let_def
  by (auto intro!: sameFrame_trans[OF moveTo_sameFrame[OF assms] upd_sameFrame]
        moveTo_sameFrame[OF assms] sameFrame_refl
      simp: keepsIdentity_def keepsPosition_def)

lemma directMove_sameFrame:
  assumes "\<not> immobile (es ! i)"
  shows "sameFrame es (directMove dt i target es)"
  unfolding directMove_def Let_def
  by (auto intro!: moveTo_sameFrame[OF assms] sameFrame_refl)

lemma act_sameFrame:
  assumes "\<not> immobile (es ! i)"
  shows "sameFrame es (act dt i target dst r es)"
  unfolding act_def Let_def
  by (auto split: option.splits
      intro!: attack_sameFrame followPath_sameFrame[OF assms] directMove_sameFrame[OF assms]
        sameFrame_refl)

lemma bind_total:
  "\<exists>a. m = Some a \<Longrightarrow> (\<And>a. \<exists>b. f a = Some b) \<Longrightarrow> \<exists>b. Option.bind m f = Some b"
  by auto

lemma planAroundWalls_total: "\<exists>r. planAroundWalls es i target blockedTiles path0 = Some r"
  unfolding planAroundWalls_def Let_def
  apply (rule bind_total)
  subgoal
    apply (cases "findBlockingWall es (es ! i) (es ! target)")
    subgoal by simp
    subgoal for w
      using findPath_total[of es "x (es ! i)" "y (es ! i)" "x (es ! w)" "y (es ! w)"
          "Some (entId (es ! i))" "ignoreTypesOf (es ! i)" "Some blockedTiles"]
      by auto
    done
  subgoal for a
    apply (cases a)
    subgoal for d p
      apply (cases p)
      subgoal
        apply (cases "findNearestWall es (es ! i) WALL_TARGET_MAX_DISTANCE")
        subgoal by simp
        subgoal for w
          using findPath_total[of es "x (es ! i)" "y (es ! i)" "x (es ! w)" "y (es ! w)"
              "Some (entId (es ! i))" "ignoreTypesOf (es ! i)" "Some blockedTiles"]
          by auto
        done
      subgoal by simp
      done
    done
  done

lemma storePlan_sameFrame: "sameFrame es (storePlan i d p es)"
  unfolding storePlan_def Let_def
  by (auto split: option.splits intro!: sameFrame_trans[OF upd_sameFrame upd_sameFrame]
      simp: keepsIdentity_def keepsPosition_def)

lemma replan_result:
  "\<exists>es' t'. replan blockedTiles es i target = Some (es', t') \<and> sameFrame es es'"
proof -
  obtain path0 where p0: "findPath es (x (es ! i)) (y (es ! i)) (x (es ! target))
      (y (es ! target)) (Some (entId (es ! i))) (ignoreTypesOf (es ! i)) (Some blockedTiles) = Some path0"
    using findPath_total by blast
  obtain d p1 where pw: "planAroundWalls es i target blockedTiles path0 = Some (d, p1)"
    using planAroundWalls_total[of es i target blockedTiles path0] by auto
  show ?thesis
    unfolding replan_def Let_def
    using p0 pw by (simp add: storePlan_sameFrame)
qed

lemma planPath_result:
  "\<exists>es' t'. planPath bd bi dt es i target = Some (es', t') \<and> sameFrame es es'"
proof -
  let ?es1 = "upd i (\<lambda>e. e\<lparr>pathCooldown :=
                  Some (max 0 ((case pathCooldown e of None \<Rightarrow> 0 | Some c \<Rightarrow> c) - dt))\<rparr>) es"
  let ?bt = "if etype (es ! i) = ZOMBIE then bi else bd"
  have f1: "sameFrame es ?es1"
    by (rule upd_sameFrame) (simp_all add: keepsIdentity_def keepsPosition_def)
  from replan_result[of ?bt ?es1 i target] obtain es' t' where
    r: "replan ?bt ?es1 i target = Some (es', t')" "sameFrame ?es1 es'" by blast
  have f2: "sameFrame es es'" by (rule sameFrame_trans[OF f1 r(2)])
  show ?thesis
    unfolding planPath_def Let_def
    using r(1) f1 f2 by (simp split: option.splits)
qed

lemma entityStep_result:
  assumes i: "i < length es"
  shows "\<exists>es'. entityStep pls bd bi dt es i = Some es' \<and> sameFrame es es'"
proof -
  let ?es1 = "upd i (tickAttackCooldown dt) es"
  have f1: "sameFrame es ?es1"
    by (rule upd_sameFrame) (rule tickAttackCooldown_keeps)+
  have i1: "i < length ?es1" using i by (simp add: length_upd)
  show ?thesis
  proof (cases "etype (?es1 ! i) = UNIT \<or> etype (?es1 ! i) = ZOMBIE")
    case False
    then show ?thesis using f1 by (simp add: entityStep_def Let_def)
  next
    case animate: True
    then have a1: "\<not> immobile (?es1 ! i)" by (auto simp: immobile_def)
    show ?thesis
    proof (cases "acquireTarget pls ?es1 i")
      case None
      then show ?thesis using f1 animate by (simp add: entityStep_def Let_def)
    next
      case (Some t0)
      from planPath_result[of bd bi dt ?es1 i t0] obtain es2 t where
        pp: "planPath bd bi dt ?es1 i t0 = Some (es2, t)" and f2: "sameFrame ?es1 es2"
        by blast
      have a2: "\<not> immobile (es2 ! i)" using sameFrame_immobile[OF f2 i1] a1 by simp
      have f12: "sameFrame es es2" by (rule sameFrame_trans[OF f1 f2])
      let ?es3 = "upd i (\<lambda>e. e\<lparr>targetId := None, path := None, pathIndex := None,
                                         pathCooldown := Some 0\<rparr>) es2"
      have f3: "sameFrame es2 ?es3"
        by (rule upd_sameFrame) (simp_all add: keepsIdentity_def keepsPosition_def)
      have i2: "i < length es2" using sameFrame_length[OF f2] i1 by simp
      have a3: "\<not> immobile (?es3 ! i)" using sameFrame_immobile[OF f3 i2] a2 by simp
      have f13: "sameFrame es ?es3" by (rule sameFrame_trans[OF f12 f3])
      have actA: "\<And>tg d r. sameFrame es (act dt i tg d r es2)"
        by (rule sameFrame_trans[OF f12 act_sameFrame[OF a2]])
      have actB: "\<And>tg d r. sameFrame es (act dt i tg d r ?es3)"
        by (rule sameFrame_trans[OF f13 act_sameFrame[OF a3]])
      show ?thesis
        unfolding entityStep_def Let_def
        using animate Some pp f13 actA actB
        by (simp split: option.splits)
    qed
  qed
qed

lemma entityLoop_result:
  "\<forall>i \<in> set idxs. i < length es \<Longrightarrow>
   \<exists>es'. entityLoop pls bd bi dt idxs es = Some es' \<and> sameFrame es es'"
proof (induction idxs arbitrary: es)
  case Nil
  then show ?case by (simp add: sameFrame_refl)
next
  case (Cons i idxs)
  from entityStep_result[of i es pls bd bi dt] Cons.prems obtain es1 where
    s: "entityStep pls bd bi dt es i = Some es1" and f: "sameFrame es es1" by auto
  have "\<forall>j \<in> set idxs. j < length es1" using Cons.prems sameFrame_length[OF f] by simp
  from Cons.IH[OF this] obtain es' where
    l: "entityLoop pls bd bi dt idxs es1 = Some es'" and f': "sameFrame es1 es'" by blast
  show ?case using s l sameFrame_trans[OF f f'] by simp
qed

lemma sweep_fst: "fst (sweep es pls) = filter (\<lambda>e. \<not> hp e \<le> 0) es"
  by (induction es arbitrary: pls) simp_all

lemma update_result:
  "\<not> gameOver s \<Longrightarrow>
   \<exists>es'. entityLoop (players s) (buildBlockedTiles (entities s) None None)
            (buildBlockedTiles (entities s) (Some [ENEMY_BASE]) None) dt
            [0..<length (entities s)] (entities s) = Some es'
        \<and> sameFrame (entities s) es'
        \<and> update dt s = Some (checkGameOver (s\<lparr>entities := fst (sweep es' (players s)),
                                                 players := snd (sweep es' (players s))\<rparr>))"
proof -
  assume ng: "\<not> gameOver s"
  from entityLoop_result[of "[0..<length (entities s)]" "entities s" "players s"
      "buildBlockedTiles (entities s) None None"
      "buildBlockedTiles (entities s) (Some [ENEMY_BASE]) None" dt]
  obtain es' where l: "entityLoop (players s) (buildBlockedTiles (entities s) None None)
            (buildBlockedTiles (entities s) (Some [ENEMY_BASE]) None) dt
            [0..<length (entities s)] (entities s) = Some es'" and f: "sameFrame (entities s) es'"
    by auto
  show ?thesis using ng l f by (simp add: update_def Let_def)
qed

lemma update_gameOver: "gameOver s \<Longrightarrow> update dt s = Some s"
  by (simp add: update_def)

lemma upt2: "[0..<2] = [0, 1 :: nat]" by code_simp

lemma update_exampleSession: "update (1 / 60) exampleSession = Some exampleSession"
  by (simp add: update_def exampleSession_def entityStep_def upd_def tickAttackCooldown_def
      mkEntity_def upt2 checkGameOver_def Let_def)

section \<open>Removal sweep: the zombie bounty\<close>

text \<open>An attack whose cooldown has elapsed leaves the attacker's owner on the target.\<close>

lemma attack_records_owner:
  assumes "i < length es" "target < length es"
    and "case attackCooldown (es ! i) of None \<Rightarrow> True | Some c \<Rightarrow> c \<le> 0"
  shows "lastAttackerId (attack i target es ! target) = Some (ownerId (es ! i))
       \<and> hp (attack i target es ! target)
           = hp (es ! target) - (case damage (es ! i) of None \<Rightarrow> 0 | Some d \<Rightarrow> d)"
  using assms
  by (auto simp: attack_def Let_def nth_upd length_upd split: option.splits)

lemma onRemoved_player:
  assumes "pls p = Some pl"
  shows "\<exists>pl'. onRemoved e pls p = Some pl' \<and> (defeated pl \<longrightarrow> defeated pl')
          \<and> gold pl' = gold pl + (if etype e = ZOMBIE \<and> lastAttackerId e = Some p \<and> p \<noteq> []
                                      \<and> \<not> defeated pl then ZOMBIE_BOUNTY else 0)"
  using assms
  by (auto simp: onRemoved_def releasePop_def markDefeated_def creditBounty_def
      split: option.splits)

lemma sweep_player:
  "pls p = Some pl \<Longrightarrow>
   \<exists>pl'. snd (sweep es pls) p = Some pl'
     \<and> (defeated pl \<longrightarrow> defeated pl' \<and> gold pl' = gold pl)
     \<and> (\<not> defeated pl' \<longrightarrow>
          gold pl' = gold pl + ZOMBIE_BOUNTY * int (length (filter (creditedTo p) es)))
     \<and> gold pl \<le> gold pl'
     \<and> gold pl' \<le> gold pl + ZOMBIE_BOUNTY * int (length (filter (creditedTo p) es))"
proof (induction es arbitrary: pls pl)
  case Nil
  then show ?case by simp
next
  case (Cons e es)
  show ?case
  proof (cases "hp e \<le> 0")
    case False
    then have nc: "\<not> creditedTo p e" by (simp add: creditedTo_def)
    from Cons.IH[of pls pl, OF Cons.prems] show ?thesis using False nc by simp
  next
    case True
    from onRemoved_player[of pls p pl e, OF Cons.prems] obtain pl1 where
      p1: "onRemoved e pls p = Some pl1" "defeated pl \<longrightarrow> defeated pl1"
        "gold pl1 = gold pl + (if etype e = ZOMBIE \<and> lastAttackerId e = Some p \<and> p \<noteq> []
                                      \<and> \<not> defeated pl then ZOMBIE_BOUNTY else 0)"
      by blast
    from Cons.IH[of "onRemoved e pls" pl1, OF p1(1)] obtain pl' where
      p': "snd (sweep es (onRemoved e pls)) p = Some pl'"
        "defeated pl1 \<longrightarrow> defeated pl' \<and> gold pl' = gold pl1"
        "\<not> defeated pl' \<longrightarrow>
          gold pl' = gold pl1 + ZOMBIE_BOUNTY * int (length (filter (creditedTo p) es))"
        "gold pl1 \<le> gold pl'"
        "gold pl' \<le> gold pl1 + ZOMBIE_BOUNTY * int (length (filter (creditedTo p) es))"
      by blast
    have s: "snd (sweep (e # es) pls) p = Some pl'" using True p'(1) by simp
    have c: "creditedTo p e \<longleftrightarrow> etype e = ZOMBIE \<and> lastAttackerId e = Some p \<and> p \<noteq> []"
      using True by (simp add: creditedTo_def)
    show ?thesis
      unfolding s using p1(2,3) p'(2-5) c
      by (auto simp: ZOMBIE_BOUNTY_def algebra_simps)
  qed
qed

lemma onRemoved_zombie:
  assumes "etype e = ZOMBIE"
  shows "onRemoved e pls =
    (\<lambda>q. if lastAttackerId e = Some q \<and> q \<noteq> []
          then map_option (\<lambda>k. if defeated k then k else k\<lparr>gold := gold k + ZOMBIE_BOUNTY\<rparr>) (pls q)
          else pls q)"
  using assms
  by (auto simp: onRemoved_def releasePop_def markDefeated_def creditBounty_def fun_eq_iff
      split: option.splits)

lemma onRemovedLegacy_player:
  assumes "pls p = Some pl"
  shows "\<exists>pl'. onRemovedLegacy e pls p = Some pl' \<and> (defeated pl \<longrightarrow> defeated pl')
          \<and> gold pl' = gold pl + (if etype e = ZOMBIE \<and> \<not> defeated pl then ZOMBIE_BOUNTY else 0)"
  using assms
  by (auto simp: onRemovedLegacy_def releasePop_def markDefeated_def creditBountyLegacy_def
      split: option.splits)

lemma sweepLegacy_player:
  "pls p = Some pl \<Longrightarrow>
   \<exists>pl'. snd (sweepLegacy es pls) p = Some pl'
     \<and> (defeated pl \<longrightarrow> defeated pl' \<and> gold pl' = gold pl)
     \<and> (\<not> defeated pl' \<longrightarrow>
          gold pl' = gold pl + ZOMBIE_BOUNTY * int (length (filter removedZombie es)))
     \<and> gold pl \<le> gold pl'
     \<and> gold pl' \<le> gold pl + ZOMBIE_BOUNTY * int (length (filter removedZombie es))"
proof (induction es arbitrary: pls pl)
  case Nil
  then show ?case by simp
next
  case (Cons e es)
  show ?case
  proof (cases "hp e \<le> 0")
    case False
    then have nc: "\<not> removedZombie e" by (simp add: removedZombie_def)
    from Cons.IH[of pls pl, OF Cons.prems] show ?thesis using False nc by simp
  next
    case True
    from onRemovedLegacy_player[of pls p pl e, OF Cons.prems] obtain pl1 where
      p1: "onRemovedLegacy e pls p = Some pl1" "defeated pl \<longrightarrow> defeated pl1"
        "gold pl1 = gold pl + (if etype e = ZOMBIE \<and> \<not> defeated pl then ZOMBIE_BOUNTY else 0)"
      by blast
    from Cons.IH[of "onRemovedLegacy e pls" pl1, OF p1(1)] obtain pl' where
      p': "snd (sweepLegacy es (onRemovedLegacy e pls)) p = Some pl'"
        "defeated pl1 \<longrightarrow> defeated pl' \<and> gold pl' = gold pl1"
        "\<not> defeated pl' \<longrightarrow>
          gold pl' = gold pl1 + ZOMBIE_BOUNTY * int (length (filter removedZombie es))"
        "gold pl1 \<le> gold pl'"
        "gold pl' \<le> gold pl1 + ZOMBIE_BOUNTY * int (length (filter removedZombie es))"
      by blast
    have s: "snd (sweepLegacy (e # es) pls) p = Some pl'" using True p'(1) by simp
    have c: "removedZombie e \<longleftrightarrow> etype e = ZOMBIE"
      using True by (simp add: removedZombie_def)
    show ?thesis
      unfolding s using p1(2,3) p'(2-5) c
      by (auto simp: ZOMBIE_BOUNTY_def algebra_simps)
  qed
qed

lemma onRemovedLegacy_zombie:
  assumes "etype e = ZOMBIE"
  shows "onRemovedLegacy e pls =
    (\<lambda>q. map_option (\<lambda>k. if defeated k then k else k\<lparr>gold := gold k + ZOMBIE_BOUNTY\<rparr>) (pls q))"
  using assms
  by (auto simp: onRemovedLegacy_def releasePop_def markDefeated_def creditBountyLegacy_def fun_eq_iff
      split: option.splits)

text \<open>
  C4, as stated, fails on the older engine copy: with two players standing and a removed
  zombie last hit by \<open>p1\<close>'s unit, its sweep pays the bounty to \<open>p1\<close> and to \<open>p2\<close>, where the
  sweep of the engine that records the last attacker leaves \<open>p2\<close> untouched.
\<close>

theorem legacy_bounty_to_every_player:
  "snd (sweepLegacy [exampleDeadZombie] [''p1'' \<mapsto> examplePlayer, ''p2'' \<mapsto> exampleSecondPlayer]) ''p1''
     = Some (examplePlayer\<lparr>gold := 110\<rparr>)
   \<and> snd (sweepLegacy [exampleDeadZombie] [''p1'' \<mapsto> examplePlayer, ''p2'' \<mapsto> exampleSecondPlayer]) ''p2''
     = Some (exampleSecondPlayer\<lparr>gold := 110\<rparr>)
   \<and> lastAttackerId exampleDeadZombie = Some ''p1''
   \<and> snd (sweep [exampleDeadZombie] [''p1'' \<mapsto> examplePlayer, ''p2'' \<mapsto> exampleSecondPlayer]) ''p2''
     = Some exampleSecondPlayer"
  by (simp add: exampleDeadZombie_def examplePlayer_def exampleSecondPlayer_def mkEntity_def
      onRemovedLegacy_def creditBountyLegacy_def onRemoved_def creditBounty_def
      markDefeated_def releasePop_def ZOMBIE_BOUNTY_def)

text \<open>
  C4, amended: in the engine that records the last attacker, when the sweep removes a
  zombie the only change to the players is that the player named by the zombie's
  \<^verbatim>\<open>lastAttackerId\<close> (the owner of its last attacker), if there is one and it is not
  defeated, gains \<open>ZOMBIE_BOUNTY\<close>; every other player is untouched. In the older engine
  copy every player that is not defeated gains \<open>ZOMBIE_BOUNTY\<close> for each removed zombie.
  Over a whole sweep, in either engine, a player's gold grows by exactly one bounty for
  each removed zombie that counts for it (those whose last attacker it owns; all of them
  in the older copy) as long as the player is not defeated, by nothing if it was defeated
  before the sweep, and never by more.
\<close>

theorem zombie_bounty_by_engine:
  "(hp e \<le> 0 \<and> etype e = ZOMBIE \<longrightarrow>
      sweep (e # rest) pls =
        sweep rest (\<lambda>q. if lastAttackerId e = Some q \<and> q \<noteq> []
                        then map_option (\<lambda>k. if defeated k then k
                                              else k\<lparr>gold := gold k + ZOMBIE_BOUNTY\<rparr>) (pls q)
                        else pls q)
      \<and> sweepLegacy (e # rest) pls =
          sweepLegacy rest (\<lambda>q. map_option (\<lambda>k. if defeated k then k
                                                  else k\<lparr>gold := gold k + ZOMBIE_BOUNTY\<rparr>) (pls q)))
   \<and> (pls p = Some pl \<longrightarrow>
        (\<exists>pl'. snd (sweep es pls) p = Some pl'
           \<and> (defeated pl \<longrightarrow> defeated pl' \<and> gold pl' = gold pl)
           \<and> (\<not> defeated pl' \<longrightarrow>
                gold pl' = gold pl + ZOMBIE_BOUNTY * int (length (filter (creditedTo p) es)))
           \<and> gold pl \<le> gold pl'
           \<and> gold pl' \<le> gold pl + ZOMBIE_BOUNTY * int (length (filter (creditedTo p) es)))
        \<and> (\<exists>pl'. snd (sweepLegacy es pls) p = Some pl'
           \<and> (defeated pl \<longrightarrow> defeated pl' \<and> gold pl' = gold pl)
           \<and> (\<not> defeated pl' \<longrightarrow>
                gold pl' = gold pl + ZOMBIE_BOUNTY * int (length (filter removedZombie es)))
           \<and> gold pl \<le> gold pl'
           \<and> gold pl' \<le> gold pl + ZOMBIE_BOUNTY * int (length (filter removedZombie es))))"
  using sweep_player[of pls p pl es] onRemoved_zombie[of e pls]
    sweepLegacy_player[of pls p pl es] onRemovedLegacy_zombie[of e pls]
  by simp

theorem zombie_bounty_by_engine_witness:
  "hp exampleDeadZombie \<le> 0 \<and> etype exampleDeadZombie = ZOMBIE
   \<and> [''p1'' \<mapsto> examplePlayer, ''p2'' \<mapsto> exampleSecondPlayer] ''p2'' = Some exampleSecondPlayer
   \<and> (\<exists>pl'. snd (sweep [exampleDeadZombie]
                  [''p1'' \<mapsto> examplePlayer, ''p2'' \<mapsto> exampleSecondPlayer]) ''p2'' = Some pl'
         \<and> \<not> defeated pl' \<and> gold pl' = gold exampleSecondPlayer)
   \<and> (\<exists>pl'. snd (sweepLegacy [exampleDeadZombie]
                  [''p1'' \<mapsto> examplePlayer, ''p2'' \<mapsto> exampleSecondPlayer]) ''p2'' = Some pl'
         \<and> \<not> defeated pl' \<and> gold pl' = gold exampleSecondPlayer + ZOMBIE_BOUNTY)
   \<and> (\<exists>pl'. snd (sweep [exampleDeadZombie]
                  [''p1'' \<mapsto> examplePlayer, ''p2'' \<mapsto> exampleSecondPlayer]) ''p1'' = Some pl'
         \<and> \<not> defeated pl' \<and> gold pl' = gold examplePlayer + ZOMBIE_BOUNTY)"
  using zombie_bounty_by_engine [of exampleDeadZombie "[]"
      "[''p1'' \<mapsto> examplePlayer, ''p2'' \<mapsto> exampleSecondPlayer]"
      "''p2''" exampleSecondPlayer "[exampleDeadZombie]"]
  by (simp add: exampleDeadZombie_def examplePlayer_def exampleSecondPlayer_def mkEntity_def
      onRemoved_def creditBounty_def markDefeated_def releasePop_def creditedTo_def
      onRemovedLegacy_def creditBountyLegacy_def removedZombie_def)

section \<open>Defeat is permanent\<close>

lemma sweep_defeated:
  "pls p = Some pl \<Longrightarrow> defeated pl \<Longrightarrow> \<exists>pl'. snd (sweep es pls) p = Some pl' \<and> defeated pl'"
  using sweep_player[of pls p pl es] by auto

text \<open>The sweep sets the flag of the owner of every base it removes.\<close>

lemma onRemoved_base_defeats:
  assumes "etype e = BASE" "ownerId e = pid" "pid \<noteq> []" "pls pid = Some pl"
  shows "\<exists>pl'. onRemoved e pls pid = Some pl' \<and> defeated pl'"
  using assms
  by (auto simp: onRemoved_def releasePop_def markDefeated_def creditBounty_def)

lemma sweep_marks_defeated:
  "e \<in> set es \<Longrightarrow> hp e \<le> 0 \<Longrightarrow> etype e = BASE \<Longrightarrow> ownerId e = pid \<Longrightarrow> pid \<noteq> []
   \<Longrightarrow> pls pid = Some pl \<Longrightarrow> \<exists>pl'. snd (sweep es pls) pid = Some pl' \<and> defeated pl'"
proof (induction es arbitrary: pls pl)
  case Nil
  then show ?case by simp
next
  case (Cons a es)
  show ?case
  proof (cases "a = e")
    case True
    from onRemoved_base_defeats[of e pid pls pl] Cons.prems obtain pl1 where
      p1: "onRemoved e pls pid = Some pl1" "defeated pl1" by auto
    from sweep_defeated[of "onRemoved e pls" pid pl1 es, OF p1] show ?thesis
      using True Cons.prems(2) by simp
  next
    case False
    then have m: "e \<in> set es" using Cons.prems(1) by simp
    show ?thesis
    proof (cases "hp a \<le> 0")
      case True
      from onRemoved_player[of pls pid pl a, OF Cons.prems(6)] obtain pl1 where
        p1: "onRemoved a pls pid = Some pl1" by blast
      from Cons.IH[of "onRemoved a pls" pl1, OF m Cons.prems(2-5) p1] show ?thesis
        using True by simp
    next
      case nd: False
      from Cons.IH[of pls pl, OF m Cons.prems(2-6)] show ?thesis using nd by simp
    qed
  qed
qed

lemma checkGameOver_frame:
  "players (checkGameOver s) = players s" "entities (checkGameOver s) = entities s"
  by (simp_all add: checkGameOver_def Let_def)

lemma update_defeated:
  assumes "players s pid = Some pl" "defeated pl"
  shows "\<exists>s' pl'. update dt s = Some s' \<and> players s' pid = Some pl' \<and> defeated pl'"
proof (cases "gameOver s")
  case True
  then show ?thesis using assms by (simp add: update_gameOver)
next
  case False
  from update_result[OF False, of dt] obtain es' where
    u: "update dt s = Some (checkGameOver (s\<lparr>entities := fst (sweep es' (players s)),
                                                 players := snd (sweep es' (players s))\<rparr>))"
    by blast
  from sweep_defeated[of "players s" pid pl es', OF assms] obtain pl' where
    "snd (sweep es' (players s)) pid = Some pl'" "defeated pl'" by blast
  then show ?thesis unfolding u by (simp add: checkGameOver_frame)
qed

lemma defeated_noop:
  assumes "players s pid = Some pl" "defeated pl"
  shows "spawnUnit rnd newId pid ut s = s" "buildHouse newId pid px py s = s"
    "buildMine newId pid px py s = s" "buildWall newId pid px py s = s"
  using assms by (simp_all add: spawnUnit_def buildHouse_def buildMine_def buildWall_def)

lemma other_player_kept:
  assumes "players s pid = Some pl" "defeated pl"
  shows "\<exists>pl'. players (spawnUnit rnd newId q ut s) pid = Some pl' \<and> defeated pl'"
    "\<exists>pl'. players (buildHouse newId q px py s) pid = Some pl' \<and> defeated pl'"
    "\<exists>pl'. players (buildMine newId q px py s) pid = Some pl' \<and> defeated pl'"
    "\<exists>pl'. players (buildWall newId q px py s) pid = Some pl' \<and> defeated pl'"
    "\<exists>pl'. players (spawnZombie pc rnd newId s) pid = Some pl' \<and> defeated pl'"
  using assms
  by (auto simp: spawnUnit_def buildHouse_def buildMine_def buildWall_def spawnZombie_def Let_def
      split: option.splits)

lemma applyOp_defeated:
  assumes "players s pid = Some pl" "defeated pl"
  shows "\<exists>s' pl'. applyOp op s = Some s' \<and> players s' pid = Some pl' \<and> defeated pl'"
  using update_defeated[OF assms] other_player_kept[OF assms]
  by (cases op) simp_all

lemma applyOps_defeated:
  "players s pid = Some pl \<Longrightarrow> defeated pl \<Longrightarrow>
   \<exists>s' pl'. applyOps ops s = Some s' \<and> players s' pid = Some pl' \<and> defeated pl'"
proof (induction ops arbitrary: s pl)
  case Nil
  then show ?case by simp
next
  case (Cons op ops)
  from applyOp_defeated[of s pid pl op, OF Cons.prems] obtain s1 pl1 where
    a: "applyOp op s = Some s1" "players s1 pid = Some pl1" "defeated pl1" by blast
  from Cons.IH[of s1 pl1, OF a(2,3)] show ?case using a(1) by simp
qed

text \<open>
  C6: once a player's \<open>defeated\<close> flag is set, it is still set after any sequence of
  engine operations (ticks, spawns, builds, zombie spawns), all of which return; and every
  spawn or build that this defeated player issues returns the state unchanged.
\<close>

theorem defeated_is_permanent:
  assumes "players s pid = Some pl" "defeated pl"
  shows "(\<exists>s' pl'. applyOps ops s = Some s' \<and> players s' pid = Some pl' \<and> defeated pl')
       \<and> (issuedBy op = Some pid \<longrightarrow> applyOp op s = Some s)"
  using applyOps_defeated[of s pid pl ops, OF assms] defeated_noop[OF assms]
  by (cases op) simp_all

theorem defeated_is_permanent_witness:
  "players exampleFinished ''p1'' = Some (examplePlayer\<lparr>defeated := True\<rparr>)
   \<and> defeated (examplePlayer\<lparr>defeated := True\<rparr>)
   \<and> (\<exists>s' pl'. applyOps [BuildWall ''w1'' ''p1'' 12 54, Update (1 / 60)] exampleFinished = Some s'
          \<and> players s' ''p1'' = Some pl' \<and> defeated pl')
   \<and> issuedBy (SpawnUnit 0 ''u1'' ''p1'' SOLDIER) = Some ''p1''
   \<and> applyOp (SpawnUnit 0 ''u1'' ''p1'' SOLDIER) exampleFinished = Some exampleFinished"
  using defeated_is_permanent [of exampleFinished "''p1''" "examplePlayer\<lparr>defeated := True\<rparr>"
      "[BuildWall ''w1'' ''p1'' 12 54, Update (1 / 60)]" "SpawnUnit 0 ''u1'' ''p1'' SOLDIER"]
  by (simp add: exampleFinished_def)

section \<open>Win condition\<close>

lemma createInitialState_decided: "createInitialState now pc lobby = Some s \<Longrightarrow> decided s"
  by (auto simp: createInitialState_def decided_def Let_def split: option.splits)

lemma ops_keep_flags:
  "gameOver (spawnUnit rnd newId q ut s) = gameOver s" "winner (spawnUnit rnd newId q ut s) = winner s"
  "gameOver (buildHouse newId q px py s) = gameOver s" "winner (buildHouse newId q px py s) = winner s"
  "gameOver (buildMine newId q px py s) = gameOver s" "winner (buildMine newId q px py s) = winner s"
  "gameOver (buildWall newId q px py s) = gameOver s" "winner (buildWall newId q px py s) = winner s"
  "gameOver (spawnZombie pc rnd newId s) = gameOver s" "winner (spawnZombie pc rnd newId s) = winner s"
  by (auto simp: spawnUnit_def buildHouse_def buildMine_def buildWall_def spawnZombie_def Let_def
      split: option.splits)

lemma checkGameOver_decided:
  "\<not> gameOver s \<Longrightarrow> winner s = None \<Longrightarrow> decided (checkGameOver s)"
  by (simp add: checkGameOver_def decided_def Let_def)

lemma update_decided: "decided s \<Longrightarrow> update dt s = Some s' \<Longrightarrow> decided s'"
proof (cases "gameOver s")
  case True
  assume "decided s" "update dt s = Some s'"
  then show ?thesis using True by (simp add: update_gameOver)
next
  case False
  assume d: "decided s" and u: "update dt s = Some s'"
  from update_result[OF False, of dt] u obtain es' where
    "s' = checkGameOver (s\<lparr>entities := fst (sweep es' (players s)),
                             players := snd (sweep es' (players s))\<rparr>)"
    by auto
  then show ?thesis using checkGameOver_decided[of "s\<lparr>entities := fst (sweep es' (players s)),
                             players := snd (sweep es' (players s))\<rparr>"] d False
    by (simp add: decided_def)
qed

lemma applyOp_decided: "decided s \<Longrightarrow> applyOp op s = Some s' \<Longrightarrow> decided s'"
  using update_decided[of s _ s']
  by (cases op) (auto simp: decided_def ops_keep_flags)

lemma reachable_decided: "reachable s \<Longrightarrow> decided s"
  by (induction rule: reachable.induct) (auto intro: createInitialState_decided applyOp_decided)

lemma applyOp_gameOver:
  "gameOver s \<Longrightarrow> \<exists>s'. applyOp op s = Some s' \<and> gameOver s' \<and> winner s' = winner s"
  by (cases op) (simp_all add: update_gameOver ops_keep_flags)

lemma applyOps_gameOver:
  "gameOver s \<Longrightarrow> \<exists>s'. applyOps ops s = Some s' \<and> gameOver s' \<and> winner s' = winner s"
proof (induction ops arbitrary: s)
  case Nil
  then show ?case by simp
next
  case (Cons op ops)
  from applyOp_gameOver[OF Cons.prems, of op] obtain s1 where
    a: "applyOp op s = Some s1" "gameOver s1" "winner s1 = winner s" by blast
  from Cons.IH[OF a(2)] show ?case using a(1,3) by simp
qed

text \<open>
  C5: in every state reachable from a fresh session the game is either undecided with no
  winner, or over with exactly one winner, \<open>ZOMBIES\<close> or \<open>PLAYERS\<close>, never both; and once
  \<open>gameOver\<close> is set, \<^verbatim>\<open>update\<close> returns the state as it is, and no sequence of engine
  operations changes \<open>gameOver\<close> or \<open>winner\<close>.
\<close>

theorem winner_exclusive_and_final:
  "(reachable s \<longrightarrow>
      (\<not> gameOver s \<and> winner s = None)
      \<or> (gameOver s \<and> (winner s = Some ''ZOMBIES'' \<or> winner s = Some ''PLAYERS'')
          \<and> \<not> (winner s = Some ''ZOMBIES'' \<and> winner s = Some ''PLAYERS'')))
   \<and> (gameOver s \<longrightarrow>
        update deltaTime s = Some s
        \<and> (\<exists>s'. applyOps ops s = Some s' \<and> gameOver s' \<and> winner s' = winner s))"
  using reachable_decided[of s] applyOps_gameOver[of s ops] update_gameOver[of s deltaTime]
  by (auto simp: decided_def)

theorem winner_exclusive_and_final_witness:
  "reachable exampleSession \<and> \<not> gameOver exampleSession \<and> winner exampleSession = None
   \<and> gameOver exampleFinished
   \<and> update (1 / 60) exampleFinished = Some exampleFinished
   \<and> (\<exists>s'. applyOps [SpawnUnit 0 ''u1'' ''p1'' SOLDIER, Update (1 / 60)] exampleFinished = Some s'
          \<and> gameOver s' \<and> winner s' = Some ''ZOMBIES'')"
  using winner_exclusive_and_final [of exampleSession "1 / 60" "[]"]
    winner_exclusive_and_final [of exampleFinished "1 / 60"
      "[SpawnUnit 0 ''u1'' ''p1'' SOLDIER, Update (1 / 60)]"]
    reachable.initial [OF exampleSession_initial]
  by (simp add: exampleSession_def exampleFinished_def)

section \<open>Immobile entities keep their position\<close>

text \<open>
  C10: a tick of a finished game changes nothing. Otherwise \<^verbatim>\<open>update\<close> returns, and the
  entity array after the per-entity loop (\<open>es'\<close>, from which the sweep keeps the entities
  with \<open>hp > 0\<close>) has the same length, the same object at each index with its type and id,
  and, for every object that is neither a unit nor a zombie, the same \<open>x\<close> and \<open>y\<close>.
\<close>

theorem update_keeps_immobile_positions:
  "(gameOver s \<longrightarrow> update deltaTime s = Some s)
   \<and> (\<not> gameOver s \<longrightarrow>
        (\<exists>es' s'. update deltaTime s = Some s'
           \<and> length es' = length (entities s)
           \<and> entities s' = filter (\<lambda>e. \<not> hp e \<le> 0) es'
           \<and> (\<forall>j < length (entities s).
                 etype (es' ! j) = etype (entities s ! j)
                 \<and> entId (es' ! j) = entId (entities s ! j)
                 \<and> (etype (entities s ! j) \<noteq> UNIT \<and> etype (entities s ! j) \<noteq> ZOMBIE
                      \<longrightarrow> x (es' ! j) = x (entities s ! j) \<and> y (es' ! j) = y (entities s ! j)))))"
proof (cases "gameOver s")
  case True
  then show ?thesis by (simp add: update_gameOver)
next
  case False
  from update_result[OF False, of deltaTime] obtain es' where
    f: "sameFrame (entities s) es'"
    and u: "update deltaTime s = Some (checkGameOver (s\<lparr>entities := fst (sweep es' (players s)),
                                                 players := snd (sweep es' (players s))\<rparr>))"
    by blast
  have "entities (checkGameOver (s\<lparr>entities := fst (sweep es' (players s)),
                                   players := snd (sweep es' (players s))\<rparr>))
        = filter (\<lambda>e. \<not> hp e \<le> 0) es'"
    by (simp add: checkGameOver_frame sweep_fst)
  then show ?thesis
    using False f u unfolding sameFrame_def immobile_def
    by (intro conjI impI exI[of _ es']) auto
qed

theorem update_keeps_immobile_positions_witness:
  "\<not> gameOver exampleSession
   \<and> update (1 / 60) exampleSession = Some exampleSession
   \<and> (\<exists>es' s'. update (1 / 60) exampleSession = Some s'
         \<and> length es' = length (entities exampleSession)
         \<and> entities s' = filter (\<lambda>e. \<not> hp e \<le> 0) es'
         \<and> (\<forall>j < length (entities exampleSession).
               etype (es' ! j) = etype (entities exampleSession ! j)
               \<and> entId (es' ! j) = entId (entities exampleSession ! j)
               \<and> (etype (entities exampleSession ! j) \<noteq> UNIT
                    \<and> etype (entities exampleSession ! j) \<noteq> ZOMBIE
                    \<longrightarrow> x (es' ! j) = x (entities exampleSession ! j)
                      \<and> y (es' ! j) = y (entities exampleSession ! j))))
   \<and> gameOver exampleFinished \<and> update (1 / 60) exampleFinished = Some exampleFinished"
proof -
  have ng: "\<not> gameOver exampleSession" by (simp add: exampleSession_def)
  have go: "gameOver exampleFinished" by (simp add: exampleFinished_def)
  show ?thesis
    using update_keeps_immobile_positions [of exampleSession "1 / 60"]
      update_keeps_immobile_positions [of exampleFinished "1 / 60"]
      ng go update_exampleSession
    by blast
qed

end
